theory Spec2Isabelle
  imports Main "HOL-Library.Sublist"
begin

section \<open>Python strings\<close>

text \<open>
  The validation stages decide control flow by looking for fixed ASCII markers in the
  text a language model returned. A Python \<open>str\<close> is modelled as a \<open>string\<close>: the
  list of the bytes of its UTF-8 encoding, in which a text occurs in another exactly
  when its bytes do. \<open>str.strip\<close> is modelled on the ASCII white space.
\<close>

definition upper_char :: "char \<Rightarrow> char" where
  "upper_char c =
     (case map_of (zip ''abcdefghijklmnopqrstuvwxyz'' ''ABCDEFGHIJKLMNOPQRSTUVWXYZ'') c of
        None \<Rightarrow> c
      | Some u \<Rightarrow> u)"

text \<open>
  The seventeen characters outside ASCII whose upper case, as \<open>str.upper\<close> gives it,
  contains an ASCII letter (U+00DF, U+0131, U+0149, U+017F, U+01F0, U+1E96 to U+1E9A,
  U+FB00 to U+FB06): the UTF-8 bytes of the character and of its upper case.
\<close>

definition SPECIAL_UPPER :: "(string \<times> string) list" where
  "SPECIAL_UPPER =
     [
      ([CHR 0xC3, CHR 0x9F], [CHR ''S'', CHR ''S'']),
      ([CHR 0xC4, CHR 0xB1], [CHR ''I'']),
      ([CHR 0xC5, CHR 0x89], [CHR 0xCA, CHR 0xBC, CHR ''N'']),
      ([CHR 0xC5, CHR 0xBF], [CHR ''S'']),
      ([CHR 0xC7, CHR 0xB0], [CHR ''J'', CHR 0xCC, CHR 0x8C]),
      ([CHR 0xE1, CHR 0xBA, CHR 0x96], [CHR ''H'', CHR 0xCC, CHR 0xB1]),
      ([CHR 0xE1, CHR 0xBA, CHR 0x97], [CHR ''T'', CHR 0xCC, CHR 0x88]),
      ([CHR 0xE1, CHR 0xBA, CHR 0x98], [CHR ''W'', CHR 0xCC, CHR 0x8A]),
      ([CHR 0xE1, CHR 0xBA, CHR 0x99], [CHR ''Y'', CHR 0xCC, CHR 0x8A]),
      ([CHR 0xE1, CHR 0xBA, CHR 0x9A], [CHR ''A'', CHR 0xCA, CHR 0xBE]),
      ([CHR 0xEF, CHR 0xAC, CHR 0x80], [CHR ''F'', CHR ''F'']),
      ([CHR 0xEF, CHR 0xAC, CHR 0x81], [CHR ''F'', CHR ''I'']),
      ([CHR 0xEF, CHR 0xAC, CHR 0x82], [CHR ''F'', CHR ''L'']),
      ([CHR 0xEF, CHR 0xAC, CHR 0x83], [CHR ''F'', CHR ''F'', CHR ''I'']),
      ([CHR 0xEF, CHR 0xAC, CHR 0x84], [CHR ''F'', CHR ''F'', CHR ''L'']),
      ([CHR 0xEF, CHR 0xAC, CHR 0x85], [CHR ''S'', CHR ''T'']),
      ([CHR 0xEF, CHR 0xAC, CHR 0x86], [CHR ''S'', CHR ''T''])]"

text \<open>The first entry of a table whose key starts the text.\<close>

fun special_at :: "(string \<times> string) list \<Rightarrow> string \<Rightarrow> (string \<times> string) option" where
  "special_at [] s = None"
| "special_at ((k, v) # others) s =
     (if prefix k s then Some (k, v) else special_at others s)"

text \<open>
  \<open>upper s\<close> is \<open>s.upper()\<close>, which works character by character. An ASCII
  character is upper-cased. At a byte outside ASCII, when one of the seventeen special
  characters starts there, its bytes are replaced by those of its upper case (the key
  has one byte more than \<open>length k - 1\<close>, the number of bytes dropped after the
  first); every other character outside ASCII is left as it is. \<open>str.upper\<close> maps
  such a character to characters outside ASCII again, so the two agree on whether an
  ASCII marker occurs in the upper-cased text, which is all the program uses that text
  for.
\<close>

function upper :: "string \<Rightarrow> string" where
  "upper [] = []"
| "upper (c # cs) =
     (if digit7 c
      then (case special_at SPECIAL_UPPER (c # cs) of
              Some (k, v) \<Rightarrow> v @ upper (drop (length k - 1) cs)
            | None \<Rightarrow> c # upper cs)
      else upper_char c # upper cs)"
  by pat_completeness auto
termination
  by (relation "measure length") auto

declare upper.simps [simp del]

text \<open>\<open>find_sub sub s\<close> is \<open>s.find(sub)\<close>: the index of the first occurrence.\<close>

fun find_sub :: "string \<Rightarrow> string \<Rightarrow> nat option" where
  "find_sub sub [] = (if sub = [] then Some 0 else None)"
| "find_sub sub (c # cs) =
     (if prefix sub (c # cs) then Some 0 else map_option Suc (find_sub sub cs))"

text \<open>\<open>contains sub s\<close> is \<open>sub in s\<close>: \<open>sub\<close> occurs somewhere in \<open>s\<close>.\<close>

fun contains :: "string \<Rightarrow> string \<Rightarrow> bool" where
  "contains sub [] = (sub = [])"
| "contains sub (c # cs) = (prefix sub (c # cs) \<or> contains sub cs)"

text \<open>
  \<open>py_split sep s\<close> is \<open>s.split(sep)\<close>: the pieces between the occurrences of
  \<open>sep\<close>, found from left to right without overlap. Python raises \<open>ValueError\<close> on
  an empty separator; every separator of the program is a non-empty literal, and the
  model returns the whole string there.
\<close>

function py_split :: "string \<Rightarrow> string \<Rightarrow> string list" where
  "py_split sep s =
     (if sep = [] then [s]
      else case find_sub sep s of
             None \<Rightarrow> [s]
           | Some i \<Rightarrow> take i s # py_split sep (drop (i + length sep) s))"
  by pat_completeness auto
termination
proof (relation "measure (\<lambda>(sep, s). length s)")
  show "wf (measure (\<lambda>(sep, s). length s))" by simp
next
  fix sep s :: string and i :: nat
  assume ne: "sep \<noteq> []" and found: "find_sub sep s = Some i"
  from ne found have "s \<noteq> []" by (cases s) auto
  with ne show "((sep, drop (i + length sep) s), (sep, s)) \<in> measure (\<lambda>(sep, s). length s)"
    by (cases sep) auto
qed

declare py_split.simps [simp del]

definition is_space :: "char \<Rightarrow> bool" where
  "is_space c =
     (c \<in> set [CHR 0x09, CHR 0x0A, CHR 0x0B, CHR 0x0C, CHR 0x0D,
                CHR 0x1C, CHR 0x1D, CHR 0x1E, CHR 0x1F, CHR 0x20])"

definition py_strip :: "string \<Rightarrow> string" where
  "py_strip s = rev (dropWhile is_space (rev (dropWhile is_space s)))"

section \<open>Errors, configuration and the pipeline state\<close>

text \<open>
  The exceptions the stages can raise. \<open>CollaboratorError\<close> stands for whatever the
  call of the language-model service raises (transport error, model error, a response
  without text content); its argument is \<open>str(e)\<close>.
\<close>

datatype error =
    FileNotFoundError string
  | TypeError
  | IndexError
  | SameFileError
  | KeyError string
  | CollaboratorError string

text \<open>
  \<open>config.py\<close> is not among the source files; the constants the stages read from it
  are the fields of this record.
\<close>

record config =
  MAX_TEXT_ATTEMPTS :: int
  MAX_IMAGE_ATTEMPTS :: int
  MAX_TEXT_ADDING_ATTEMPTS :: int
  INPUT_TEXT_PATH :: string
  INPUT_IMAGE_PATH :: string
  INTERMEDIATE_DIR :: string
  OUTPUT_DIR :: string

text \<open>
  \<open>AgentState\<close> (state.py) with the fifteen keys \<open>main\<close> creates it with. A field whose
  Python value may be \<open>None\<close> is an option. The last seven fields are the keys outside
  the declared \<open>TypedDict\<close> that \<open>text_validation_agent\<close> and
  \<open>should_retry_text_adding\<close> use; there \<open>None\<close> also stands for an absent key.
\<close>

record agent_state =
  input_text :: string
  input_image_path :: string
  image_pipeline :: "unit option"
  planning_output :: "string option"
  generated_text :: "string option"
  text_attempt_count :: "int option"
  best_text :: "string option"
  current_image :: "string option"
  image_attempt_count :: int
  best_image :: "string option"
  validation_feedback :: "string option"
  validation_passed :: bool
  poster_with_text :: "string option"
  final_poster_path :: "string option"
  final_text_path :: "string option"
  text_adding_attempt_count :: "int option"
  text_validation_result :: "string option"
  text_validation_feedback :: "string option"
  text_is_correct :: "bool option"
  text_is_clear :: "bool option"
  found_text :: "string option"
  specific_fix :: "string option"

section \<open>Retry routers\<close>

text \<open>
  \<open>should_retry_text\<close> (text_generation_agent.py). Reading
  \<open>state["text_attempt_count"]\<close> is reached only when the validation did not pass;
  comparing \<open>None\<close> with an integer raises \<open>TypeError\<close>.
\<close>

definition should_retry_text :: "config \<Rightarrow> agent_state \<Rightarrow> error + string" where
  "should_retry_text c st =
     (if validation_passed st then Inr ''continue''
      else case text_attempt_count st of
             None \<Rightarrow> Inl TypeError
           | Some n \<Rightarrow>
               if n \<ge> MAX_TEXT_ATTEMPTS c then Inr ''continue'' else Inr ''retry'')"

text \<open>\<open>should_retry_image\<close> (editor_agent.py).\<close>

definition should_retry_image :: "config \<Rightarrow> agent_state \<Rightarrow> string" where
  "should_retry_image c st =
     (if validation_passed st then ''continue''
      else if image_attempt_count st \<ge> MAX_IMAGE_ATTEMPTS c then ''continue''
      else ''retry'')"

text \<open>
  \<open>should_retry_text_adding\<close> (text_validation_agent.py):
  \<open>state.get("text_adding_attempt_count", 0)\<close> and
  \<open>state.get("text_validation_result", "rejected")\<close>.
\<close>

definition should_retry_text_adding :: "config \<Rightarrow> agent_state \<Rightarrow> string" where
  "should_retry_text_adding c st =
     (let attempt_count = (case text_adding_attempt_count st of None \<Rightarrow> 0 | Some n \<Rightarrow> n);
          validation_result =
            (case text_validation_result st of None \<Rightarrow> ''rejected'' | Some v \<Rightarrow> v)
      in if validation_result = ''approved'' then ''continue''
         else if attempt_count < MAX_TEXT_ADDING_ATTEMPTS c then ''retry''
         else ''continue'')"

section \<open>Files\<close>

text \<open>
  The file system is a finite map from paths to contents. Directories and permissions
  are not modelled: \<open>os.makedirs\<close> and writing a file always succeed, and
  \<open>os.path.exists\<close> holds of the paths in the domain of the map.
\<close>

type_synonym filesystem = "string \<rightharpoonup> string"

text \<open>\<open>os.path.join(a, b)\<close> on POSIX paths.\<close>

definition path_join :: "string \<Rightarrow> string \<Rightarrow> string" where
  "path_join a b =
     (if b \<noteq> [] \<and> hd b = CHR ''/'' then b
      else if a = [] \<or> last a = CHR ''/'' then a @ b
      else a @ ''/'' @ b)"

text \<open>\<open>str(n)\<close> for an integer: its decimal digits.\<close>

function str_nat :: "nat \<Rightarrow> string" where
  "str_nat n =
     (if n < 10 then [''0123456789'' ! n]
      else str_nat (n div 10) @ [''0123456789'' ! (n mod 10)])"
  by pat_completeness auto
termination
  by (relation "measure (\<lambda>n. n)") auto

declare str_nat.simps [simp del]

definition str_int :: "int \<Rightarrow> string" where
  "str_int i = (if i < 0 then ''-'' @ str_nat (nat (- i)) else str_nat (nat i))"

text \<open>
  \<open>encode_image(path)\<close> opens and reads the file; the base64 text it returns only goes
  into a request, so the content read stands for it. \<open>open(None)\<close> raises
  \<open>TypeError\<close>.
\<close>

definition encode_image :: "filesystem \<Rightarrow> string option \<Rightarrow> error + string" where
  "encode_image fs image_path =
     (case image_path of
        None \<Rightarrow> Inl TypeError
      | Some p \<Rightarrow>
          (case fs p of None \<Rightarrow> Inl (FileNotFoundError p) | Some content \<Rightarrow> Inr content))"

text \<open>
  \<open>shutil.copy(src, dst)\<close>: a missing source raises \<open>FileNotFoundError\<close>, copying
  a file onto itself raises \<open>SameFileError\<close>.
\<close>

definition shutil_copy :: "filesystem \<Rightarrow> string option \<Rightarrow> string \<Rightarrow> error + filesystem" where
  "shutil_copy fs src dst =
     (case src of
        None \<Rightarrow> Inl TypeError
      | Some s \<Rightarrow>
          (case fs s of
             None \<Rightarrow> Inl (FileNotFoundError s)
           | Some content \<Rightarrow> if s = dst then Inl SameFileError else Inr (fs(dst \<mapsto> content))))"

text \<open>Truth value of an optional string, and \<open>a or b\<close> on two of them.\<close>

definition truthy :: "string option \<Rightarrow> bool" where
  "truthy v = (case v of None \<Rightarrow> False | Some s \<Rightarrow> s \<noteq> [])"

definition py_or :: "string option \<Rightarrow> string option \<Rightarrow> string option" where
  "py_or a b = (if truthy a then a else b)"

section \<open>Stages\<close>

text \<open>
  A stage takes the state and returns the updated state, or the exception it raises.
  What the outside world answers is an argument: \<open>resp\<close> is the outcome of the one
  chat-completion call a stage makes, \<open>Inr\<close> the text of the first choice, \<open>Inl\<close>
  the exception raised by the call or by reading the text out of the response. The
  prompt a stage sends does not appear: the answer of the service is arbitrary anyway.
\<close>

text \<open>\<open>load_pipeline\<close> (main.py): a failure to load is caught and stored as \<open>None\<close>.\<close>

definition load_pipeline :: "bool \<Rightarrow> agent_state \<Rightarrow> agent_state" where
  "load_pipeline loaded st = st\<lparr>image_pipeline := (if loaded then Some () else None)\<rparr>"

text \<open>\<open>load_input\<close> (main.py).\<close>

definition load_input :: "config \<Rightarrow> filesystem \<Rightarrow> agent_state \<Rightarrow> error + agent_state" where
  "load_input c fs st =
     (case fs (INPUT_TEXT_PATH c) of
        None \<Rightarrow>
          Inl (FileNotFoundError (''Input text file not found: '' @ INPUT_TEXT_PATH c))
      | Some content \<Rightarrow>
          (case fs (INPUT_IMAGE_PATH c) of
             None \<Rightarrow>
               Inl (FileNotFoundError (''Input image file not found: '' @ INPUT_IMAGE_PATH c))
           | Some _ \<Rightarrow>
               Inr (st\<lparr>input_text := py_strip content,
                        input_image_path := INPUT_IMAGE_PATH c,
                        text_attempt_count := Some 0,
                        image_attempt_count := 0,
                        validation_passed := False\<rparr>)))"

text \<open>\<open>planning_agent\<close> (planning_agent.py).\<close>

definition planning_agent ::
  "config \<Rightarrow> filesystem \<Rightarrow> error + string \<Rightarrow> agent_state \<Rightarrow> error + filesystem \<times> agent_state"
where
  "planning_agent c fs resp st =
     (case encode_image fs (Some (input_image_path st)) of
        Inl e \<Rightarrow> Inl e
      | Inr _ \<Rightarrow>
          (case resp of
             Inl e \<Rightarrow> Inl e
           | Inr planning \<Rightarrow>
               Inr (fs(path_join (INTERMEDIATE_DIR c) ''planning.txt'' \<mapsto> planning),
                    st\<lparr>planning_output := Some planning\<rparr>)))"

text \<open>
  \<open>text_generation_agent\<close> (text_generation_agent.py): the counter is set to 0 when
  it is \<open>None\<close>, then incremented; the text is saved as \<open>text_attempt<n>.txt\<close>; the
  best text is set only while there is none.
\<close>

definition text_generation_agent ::
  "config \<Rightarrow> filesystem \<Rightarrow> error + string \<Rightarrow> agent_state \<Rightarrow> error + filesystem \<times> agent_state"
where
  "text_generation_agent c fs resp st =
     (let attempt_num = (case text_attempt_count st of None \<Rightarrow> 0 | Some n \<Rightarrow> n) + 1
      in case resp of
           Inl e \<Rightarrow> Inl e
         | Inr generated \<Rightarrow>
             Inr (fs(path_join (INTERMEDIATE_DIR c)
                       (''text_attempt'' @ str_int attempt_num @ ''.txt'') \<mapsto> generated),
                  st\<lparr>text_attempt_count := Some attempt_num,
                     generated_text := Some generated,
                     best_text := (if best_text st = None then Some generated
                                   else best_text st)\<rparr>))"

text \<open>\<open>validate_text\<close> (text_generation_agent.py).\<close>

definition validate_text :: "error + string \<Rightarrow> agent_state \<Rightarrow> error + agent_state" where
  "validate_text resp st =
     (case resp of
        Inl e \<Rightarrow> Inl e
      | Inr validation_result \<Rightarrow>
          (let passed = contains ''VALIDATION: PASS'' (upper validation_result);
               st1 = st\<lparr>validation_feedback := Some validation_result,
                        validation_passed := passed\<rparr>
           in Inr (if passed then st1\<lparr>best_text := generated_text st1\<rparr> else st1)))"

text \<open>The note \<open>editor_agent\<close> appends when the logo marker is missing.\<close>

definition LOGO_NOTE :: string where
  "LOGO_NOTE = [CHR 0x0A, CHR 0x0A] @
     ''IMPORTANT: Logo not properly integrated. Must revert to input.png as base.''"

text \<open>\<open>editor_agent\<close> (editor_agent.py).\<close>

definition editor_agent ::
  "filesystem \<Rightarrow> error + string \<Rightarrow> agent_state \<Rightarrow> error + agent_state"
where
  "editor_agent fs resp st =
     (case encode_image fs (current_image st) of
        Inl e \<Rightarrow> Inl e
      | Inr _ \<Rightarrow>
     (case encode_image fs (Some (input_image_path st)) of
        Inl e \<Rightarrow> Inl e
      | Inr _ \<Rightarrow>
     (case resp of
        Inl e \<Rightarrow> Inl e
      | Inr validation_result \<Rightarrow>
          (let passed = contains ''VALIDATION: PASS'' (upper validation_result);
               logo_integrated = contains ''LOGO_INTEGRATED: YES'' (upper validation_result);
               st1 = st\<lparr>validation_feedback := Some validation_result,
                        validation_passed := passed\<rparr>;
               st2 = (if passed \<or> best_image st1 = None
                      then st1\<lparr>best_image := current_image st1\<rparr> else st1)
           in if \<not> logo_integrated
              then (case validation_feedback st2 of
                      None \<Rightarrow> Inl TypeError
                    | Some feedback \<Rightarrow>
                        Inr (st2\<lparr>validation_feedback := Some (feedback @ LOGO_NOTE)\<rparr>))
              else Inr st2))))"

text \<open>\<open>xs[i]\<close> for a list and an index that is not negative.\<close>

definition py_index :: "'a list \<Rightarrow> nat \<Rightarrow> error + 'a" where
  "py_index xs i = (if i < length xs then Inr (xs ! i) else Inl IndexError)"

text \<open>
  The loop \<open>for field in [...]: if field in section: section = section.split(field)[0];
  break\<close> of \<open>text_validation_agent\<close>: the section is cut at the first field of the
  list that occurs in it.
\<close>

fun cut_at_field :: "string list \<Rightarrow> string \<Rightarrow> error + string" where
  "cut_at_field [] sec = Inr sec"
| "cut_at_field (field # others) sec =
     (if contains field sec then py_index (py_split field sec) 0
      else cut_at_field others sec)"

text \<open>
  The text after a label, up to the next label, stripped; \<open>None\<close> when the label does
  not occur. The label is looked for in the response as it is, not in its upper-cased
  copy.
\<close>

definition extract_field :: "string \<Rightarrow> string list \<Rightarrow> string \<Rightarrow> error + string option" where
  "extract_field label next_fields validation_result =
     (if contains label validation_result
      then (case py_index (py_split label validation_result) 1 of
              Inl e \<Rightarrow> Inl e
            | Inr sec \<Rightarrow>
                (case cut_at_field next_fields sec of
                   Inl e \<Rightarrow> Inl e
                 | Inr sec' \<Rightarrow> Inr (Some (py_strip sec'))))
      else Inr None)"

text \<open>What \<open>text_validation_agent\<close> parses out of the response of the validator.\<close>

record parsed_validation =
  validation_approved :: bool
  parsed_text_is_correct :: bool
  parsed_text_is_clear :: bool
  parsed_found_text :: "string option"
  parsed_specific_fix :: "string option"

definition parse_text_validation :: "string \<Rightarrow> error + parsed_validation" where
  "parse_text_validation validation_result =
     (case extract_field ''FOUND_TEXT:'' [''SPECIFIC_FIX:'', ''VALIDATION:''] validation_result of
        Inl e \<Rightarrow> Inl e
      | Inr found \<Rightarrow>
          (case extract_field ''SPECIFIC_FIX:'' [''VALIDATION:''] validation_result of
             Inl e \<Rightarrow> Inl e
           | Inr fix \<Rightarrow>
               Inr \<lparr>validation_approved =
                      contains ''VALIDATION: APPROVED'' (upper validation_result),
                    parsed_text_is_correct =
                      contains ''TEXT_CORRECT: YES'' (upper validation_result),
                    parsed_text_is_clear =
                      contains ''TEXT_CLEAR: YES'' (upper validation_result),
                    parsed_found_text = found,
                    parsed_specific_fix = fix\<rparr>))"

text \<open>\<open>str(e)\<close> of an exception.\<close>

fun error_str :: "error \<Rightarrow> string" where
  "error_str (FileNotFoundError p) = p"
| "error_str TypeError = ''TypeError''"
| "error_str IndexError = ''list index out of range''"
| "error_str SameFileError = ''SameFileError''"
| "error_str (KeyError k) = k"
| "error_str (CollaboratorError m) = m"

text \<open>
  \<open>text_validation_agent\<close> (text_validation_agent.py). The poster is read before the
  \<open>try\<close> block; the call of the validator and the parsing of its answer are inside
  it, and every exception raised there ends in the rejecting \<open>except\<close> branch. The
  calls of \<open>config.log_stage\<close> and \<open>config.log_message\<close> only write a log.
\<close>

definition text_validation_agent ::
  "filesystem \<Rightarrow> error + string \<Rightarrow> agent_state \<Rightarrow> error + agent_state"
where
  "text_validation_agent fs resp st =
     (case encode_image fs (poster_with_text st) of
        Inl e \<Rightarrow> Inl e
      | Inr _ \<Rightarrow>
          (case (case resp of
                   Inl e \<Rightarrow> Inl e
                 | Inr validation_result \<Rightarrow>
                     (case parse_text_validation validation_result of
                        Inl e \<Rightarrow> Inl e
                      | Inr p \<Rightarrow> Inr (validation_result, p))) of
             Inr (validation_result, p) \<Rightarrow>
               Inr (st\<lparr>text_validation_result :=
                          Some (if validation_approved p then ''approved'' else ''rejected''),
                        text_validation_feedback := Some validation_result,
                        text_is_correct := Some (parsed_text_is_correct p),
                        text_is_clear := Some (parsed_text_is_clear p),
                        found_text := parsed_found_text p,
                        specific_fix := parsed_specific_fix p\<rparr>)
           | Inl e \<Rightarrow>
               Inr (st\<lparr>text_validation_result := Some ''rejected'',
                        text_validation_feedback :=
                          Some (''Validation failed due to error: '' @ error_str e),
                        text_is_correct := Some False,
                        text_is_clear := Some False,
                        found_text := None,
                        specific_fix := None\<rparr>)))"

text \<open>\<open>segmentation_placeholder\<close> (main.py) returns the state as it is.\<close>

definition segmentation_placeholder :: "agent_state \<Rightarrow> agent_state" where
  "segmentation_placeholder st = st"

text \<open>
  \<open>save_output\<close> (main.py). The poster is copied from \<open>poster_with_text\<close> when that
  is a non-empty path of an existing file, and otherwise from
  \<open>best_image or current_image\<close>; the text written is \<open>best_text or generated_text\<close>,
  and writing \<open>None\<close> raises \<open>TypeError\<close>.
\<close>

definition poster_source_of :: "filesystem \<Rightarrow> agent_state \<Rightarrow> string option" where
  "poster_source_of fs st =
     (let poster_source = poster_with_text st
      in if \<not> truthy poster_source
            \<or> (case poster_source of None \<Rightarrow> True | Some p \<Rightarrow> fs p = None)
         then py_or (best_image st) (current_image st)
         else poster_source)"

definition save_output ::
  "config \<Rightarrow> filesystem \<Rightarrow> agent_state \<Rightarrow> error + filesystem \<times> agent_state"
where
  "save_output c fs st =
     (let poster_source = poster_source_of fs st;
          final_poster = path_join (OUTPUT_DIR c) ''poster.png''
      in case shutil_copy fs poster_source final_poster of
           Inl e \<Rightarrow> Inl e
         | Inr fs1 \<Rightarrow>
             (let st1 = st\<lparr>final_poster_path := Some final_poster\<rparr>;
                  final_text = py_or (best_text st1) (generated_text st1);
                  final_text_file = path_join (OUTPUT_DIR c) ''text.txt''
              in case final_text of
                   None \<Rightarrow> Inl TypeError
                 | Some t \<Rightarrow>
                     Inr (fs1(final_text_file \<mapsto> t),
                          st1\<lparr>final_text_path := Some final_text_file\<rparr>)))"

section \<open>The stage graph\<close>

text \<open>
  \<open>build_graph\<close> (main.py) declares ten nodes, the entry point \<open>load_pipeline\<close>,
  unconditional edges and two conditional edges, each with a router and a map from
  the router's label to the next node.
\<close>

datatype node =
    Load_pipeline | Load_input | Planning
  | Text_generation | Text_validation
  | Image_generation | Image_validation
  | Segmentation | Text_adding | Save_output | END

datatype edge =
    Edge node
  | Conditional "agent_state \<Rightarrow> error + string" "(string \<times> node) list"

fun edges :: "config \<Rightarrow> node \<Rightarrow> edge" where
  "edges c Load_pipeline = Edge Load_input"
| "edges c Load_input = Edge Planning"
| "edges c Planning = Edge Text_generation"
| "edges c Text_generation = Edge Text_validation"
| "edges c Text_validation =
     Conditional (should_retry_text c)
       [(''retry'', Text_generation), (''continue'', Image_generation)]"
| "edges c Image_generation = Edge Image_validation"
| "edges c Image_validation =
     Conditional (\<lambda>st. Inr (should_retry_image c st))
       [(''retry'', Image_generation), (''continue'', Segmentation)]"
| "edges c Segmentation = Edge Text_adding"
| "edges c Text_adding = Edge Save_output"
| "edges c Save_output = Edge END"
| "edges c END = Edge END"

definition conditional_edge :: "(string \<times> node) list \<Rightarrow> string \<Rightarrow> error + node" where
  "conditional_edge path_map label =
     (case map_of path_map label of None \<Rightarrow> Inl (KeyError label) | Some nd \<Rightarrow> Inr nd)"

text \<open>
  The world outside the state: the files, and how many chat-completion calls the run
  has made so far.
\<close>

record world =
  files :: filesystem
  calls :: nat

text \<open>
  What a run depends on beyond the sources at hand: the configuration, the answer
  \<open>llm k\<close> of the language-model service to the \<open>k\<close>-th call of the run, whether
  the diffusion pipeline loads, and the two stages whose modules
  (\<open>agents/image_generation_agent.py\<close>, \<open>agents/text_adding_agent.py\<close>) are not among
  the source files and are therefore arbitrary functions here.
\<close>

record env =
  conf :: config
  llm :: "nat \<Rightarrow> error + string"
  pipeline_loads :: bool
  image_generation_agent :: "world \<Rightarrow> agent_state \<Rightarrow> error + world \<times> agent_state"
  text_adding_agent :: "world \<Rightarrow> agent_state \<Rightarrow> error + world \<times> agent_state"

text \<open>A stage that makes one call and may write files, run in a world.\<close>

definition calling ::
  "world \<Rightarrow> error + filesystem \<times> agent_state \<Rightarrow> error + world \<times> agent_state"
where
  "calling w r =
     (case r of
        Inl e \<Rightarrow> Inl e
      | Inr (fs', st') \<Rightarrow> Inr (w\<lparr>files := fs', calls := calls w + 1\<rparr>, st'))"

fun run_node :: "env \<Rightarrow> node \<Rightarrow> world \<Rightarrow> agent_state \<Rightarrow> error + world \<times> agent_state" where
  "run_node ev Load_pipeline w st = Inr (w, load_pipeline (pipeline_loads ev) st)"
| "run_node ev Load_input w st =
     (case load_input (conf ev) (files w) st of Inl e \<Rightarrow> Inl e | Inr st' \<Rightarrow> Inr (w, st'))"
| "run_node ev Planning w st =
     calling w (planning_agent (conf ev) (files w) (llm ev (calls w)) st)"
| "run_node ev Text_generation w st =
     calling w (text_generation_agent (conf ev) (files w) (llm ev (calls w)) st)"
| "run_node ev Text_validation w st =
     (case validate_text (llm ev (calls w)) st of
        Inl e \<Rightarrow> Inl e
      | Inr st' \<Rightarrow> Inr (w\<lparr>calls := calls w + 1\<rparr>, st'))"
| "run_node ev Image_generation w st = image_generation_agent ev w st"
| "run_node ev Image_validation w st =
     (case editor_agent (files w) (llm ev (calls w)) st of
        Inl e \<Rightarrow> Inl e
      | Inr st' \<Rightarrow> Inr (w\<lparr>calls := calls w + 1\<rparr>, st'))"
| "run_node ev Segmentation w st = Inr (w, segmentation_placeholder st)"
| "run_node ev Text_adding w st = text_adding_agent ev w st"
| "run_node ev Save_output w st =
     (case save_output (conf ev) (files w) st of
        Inl e \<Rightarrow> Inl e
      | Inr (fs', st') \<Rightarrow> Inr (w\<lparr>files := fs'\<rparr>, st'))"
| "run_node ev END w st = Inr (w, st)"

text \<open>
  What a run leaves behind: the stages that returned (with the state they returned),
  the labels the routers gave (with the state they read), the exception that ended
  the run.
\<close>

datatype event =
    Executed node agent_state
  | Routed node string agent_state
  | Raised node error

datatype outcome = Finished agent_state | Failed error | Recursion_limit

definition after :: "event list \<Rightarrow> event list \<times> outcome \<Rightarrow> event list \<times> outcome" where
  "after evs r = (evs @ fst r, snd r)"

text \<open>
  \<open>app.invoke\<close>: the compiled graph runs the current node, follows its edge, and
  stops at \<open>END\<close>; an exception of a node or a router ends the run. The number of
  nodes a run may execute is bounded (the recursion limit of the graph library); a run
  that needs more ends in \<open>Recursion_limit\<close>.
\<close>

fun invoke :: "env \<Rightarrow> nat \<Rightarrow> node \<Rightarrow> world \<Rightarrow> agent_state \<Rightarrow> event list \<times> outcome" where
  "invoke ev limit END w st = ([], Finished st)"
| "invoke ev 0 nd w st = ([], Recursion_limit)"
| "invoke ev (Suc limit) nd w st =
     (case run_node ev nd w st of
        Inl e \<Rightarrow> ([Raised nd e], Failed e)
      | Inr (w', st') \<Rightarrow>
          (case edges (conf ev) nd of
             Edge nxt \<Rightarrow> after [Executed nd st'] (invoke ev limit nxt w' st')
           | Conditional router path_map \<Rightarrow>
               (case router st' of
                  Inl e \<Rightarrow> ([Executed nd st', Raised nd e], Failed e)
                | Inr label \<Rightarrow>
                    (case conditional_edge path_map label of
                       Inl e \<Rightarrow> ([Executed nd st', Routed nd label st', Raised nd e], Failed e)
                     | Inr nxt \<Rightarrow>
                         after [Executed nd st', Routed nd label st']
                           (invoke ev limit nxt w' st')))))"

text \<open>The state \<open>main\<close> starts the graph with.\<close>

definition initial_state :: agent_state where
  "initial_state =
     \<lparr>input_text = [], input_image_path = [], image_pipeline = None,
      planning_output = None, generated_text = None, text_attempt_count = Some 0,
      best_text = None, current_image = None, image_attempt_count = 0,
      best_image = None, validation_feedback = None, validation_passed = False,
      poster_with_text = None, final_poster_path = None, final_text_path = None,
      text_adding_attempt_count = None, text_validation_result = None,
      text_validation_feedback = None, text_is_correct = None, text_is_clear = None,
      found_text = None, specific_fix = None\<rparr>"

definition main :: "env \<Rightarrow> nat \<Rightarrow> world \<Rightarrow> event list \<times> outcome" where
  "main ev limit w = invoke ev limit Load_pipeline w initial_state"

section \<open>Sequences of attempts\<close>

text \<open>
  An attempt of the text loop is \<open>text_generation_agent\<close> followed by
  \<open>validate_text\<close>; \<open>text_attempts\<close> runs a list of attempts, each given by the
  answers of the generator and of the validator, whatever a router would say.
\<close>

fun text_attempts ::
  "config \<Rightarrow> ((error + string) \<times> (error + string)) list \<Rightarrow> filesystem \<Rightarrow> agent_state
     \<Rightarrow> error + filesystem \<times> agent_state"
where
  "text_attempts c [] fs st = Inr (fs, st)"
| "text_attempts c ((gen_resp, val_resp) # rest) fs st =
     (case text_generation_agent c fs gen_resp st of
        Inl e \<Rightarrow> Inl e
      | Inr (fs', st') \<Rightarrow>
          (case validate_text val_resp st' of
             Inl e \<Rightarrow> Inl e
           | Inr st'' \<Rightarrow> text_attempts c rest fs' st''))"

text \<open>
  The generation stage of the image loop is not among the source files. An attempt of
  the image loop is recorded by \<open>editor_agent\<close>, run on the state whose
  \<open>current_image\<close> is the candidate.
\<close>

fun image_attempts ::
  "filesystem \<Rightarrow> (string \<times> (error + string)) list \<Rightarrow> agent_state \<Rightarrow> error + agent_state"
where
  "image_attempts fs [] st = Inr st"
| "image_attempts fs ((img, val_resp) # rest) st =
     (case editor_agent fs val_resp (st\<lparr>current_image := Some img\<rparr>) of
        Inl e \<Rightarrow> Inl e
      | Inr st' \<Rightarrow> image_attempts fs rest st')"

text \<open>An answer of a validator that does not carry the pass marker.\<close>

definition rejecting :: "error + string \<Rightarrow> bool" where
  "rejecting resp =
     (case resp of Inl e \<Rightarrow> True | Inr r \<Rightarrow> \<not> contains ''VALIDATION: PASS'' (upper r))"



section \<open>Sample values\<close>

text \<open>
  A configuration, a file system and an environment on which the theorems below are
  instantiated. In the sample environment the image stage reuses the input image and
  counts its attempt, and the text-adding stage returns the state as it is.
\<close>

definition sample_config :: config where
  "sample_config =
     \<lparr>MAX_TEXT_ATTEMPTS = 3, MAX_IMAGE_ATTEMPTS = 3, MAX_TEXT_ADDING_ATTEMPTS = 3,
      INPUT_TEXT_PATH = ''input.txt'', INPUT_IMAGE_PATH = ''input.png'',
      INTERMEDIATE_DIR = ''intermediate_outputs'', OUTPUT_DIR = ''outputs''\<rparr>"

definition sample_files :: filesystem where
  "sample_files = [''input.txt'' \<mapsto> ''AI Summit'', ''input.png'' \<mapsto> ''logo'']"

definition sample_env :: "(nat \<Rightarrow> error + string) \<Rightarrow> env" where
  "sample_env answers =
     \<lparr>conf = sample_config,
      llm = answers,
      pipeline_loads = False,
      image_generation_agent =
        (\<lambda>w st. Inr (w, st\<lparr>current_image := Some (input_image_path st),
                              image_attempt_count := image_attempt_count st + 1\<rparr>)),
      text_adding_agent = (\<lambda>w st. Inr (w, st))\<rparr>"

section \<open>The stored validation results\<close>



section \<open>Invariants of the attempt counters\<close>

text \<open>
  What holds of the two attempt counters when a run of the graph is about to execute a
  node: the counter of a loop is below the maximum in front of the generation stage
  and between 1 and the maximum in front of the validation stage.
\<close>

fun text_counter_inv :: "config \<Rightarrow> node \<Rightarrow> agent_state \<Rightarrow> bool" where
  "text_counter_inv c Planning st = (text_attempt_count st = Some 0)"
| "text_counter_inv c Text_generation st =
     (\<exists>k. text_attempt_count st = Some k \<and> 0 \<le> k \<and> k < MAX_TEXT_ATTEMPTS c)"
| "text_counter_inv c Text_validation st =
     (\<exists>k. text_attempt_count st = Some k \<and> 1 \<le> k \<and> k \<le> MAX_TEXT_ATTEMPTS c)"
| "text_counter_inv c nd st = True"

fun image_counter_inv :: "config \<Rightarrow> node \<Rightarrow> agent_state \<Rightarrow> bool" where
  "image_counter_inv c Planning st = (image_attempt_count st = 0)"
| "image_counter_inv c Text_generation st = (image_attempt_count st = 0)"
| "image_counter_inv c Text_validation st = (image_attempt_count st = 0)"
| "image_counter_inv c Image_generation st =
     (0 \<le> image_attempt_count st \<and> image_attempt_count st < MAX_IMAGE_ATTEMPTS c)"
| "image_counter_inv c Image_validation st =
     (1 \<le> image_attempt_count st \<and> image_attempt_count st \<le> MAX_IMAGE_ATTEMPTS c)"
| "image_counter_inv c nd st = True"

text \<open>
  Answers of the language-model service with which the text loop uses up its three
  attempts: calls 0, 2 and 4 are answered with a text, every other call with a
  failing validation.
\<close>

definition exhausting_answers :: "nat \<Rightarrow> error + string" where
  "exhausting_answers k =
     Inr (if k = 0 then ''first'' else if k = 2 then ''second'' else if k = 4 then ''third''
          else ''VALIDATION: FAIL'')"

section \<open>Facts about the string operations\<close>









lemma upper_special_examples:
  "upper (''val'' @ [CHR 0xC4, CHR 0xB1] @ ''dat'' @ [CHR 0xC4, CHR 0xB1] @ ''on: pass'')
     = ''VALIDATION: PASS''"
  "upper (''logo_integrated: ye'' @ [CHR 0xC3, CHR 0x9F]) = ''LOGO_INTEGRATED: YESS''"
  "upper ([CHR 0xC3, CHR 0xA9] @ ''t'' @ [CHR 0xC3, CHR 0xA9]) = [CHR 0xC3, CHR 0xA9] @ ''T'' @ [CHR 0xC3, CHR 0xA9]"
  by (simp_all add: upper.simps upper_char_def SPECIAL_UPPER_def)









section \<open>The retry routers\<close>

text \<open>
  Claim C1. Each of the three routers (\<open>should_retry_text\<close>, \<open>should_retry_image\<close>,
  \<open>should_retry_text_adding\<close>) is a function of the state that returns a label and
  nothing else, so the state the next stage receives is the one the router read. On
  every state whose attempt counter is an integer it returns \<open>continue\<close> exactly when
  the validation passed or the counter has reached the maximum, and \<open>retry\<close> exactly
  otherwise. This holds for every maximum, in particular for every maximum of at
  least 1. For the overlay router the validation passed when
  \<open>text_validation_result\<close> is \<open>approved\<close>, and an absent counter counts as 0.
\<close>

theorem retry_routers_decide:
  "(text_attempt_count st = Some n \<longrightarrow>
      (should_retry_text c st = Inr ''continue'' \<longleftrightarrow>
         validation_passed st \<or> n \<ge> MAX_TEXT_ATTEMPTS c) \<and>
      (should_retry_text c st = Inr ''retry'' \<longleftrightarrow>
         \<not> (validation_passed st \<or> n \<ge> MAX_TEXT_ATTEMPTS c)))
   \<and> (should_retry_image c st = ''continue'' \<longleftrightarrow>
         validation_passed st \<or> image_attempt_count st \<ge> MAX_IMAGE_ATTEMPTS c)
   \<and> (should_retry_image c st = ''retry'' \<longleftrightarrow>
         \<not> (validation_passed st \<or> image_attempt_count st \<ge> MAX_IMAGE_ATTEMPTS c))
   \<and> (should_retry_text_adding c st = ''continue'' \<longleftrightarrow>
         text_validation_result st = Some ''approved''
         \<or> (case text_adding_attempt_count st of None \<Rightarrow> 0 | Some k \<Rightarrow> k)
               \<ge> MAX_TEXT_ADDING_ATTEMPTS c)
   \<and> (should_retry_text_adding c st = ''retry'' \<longleftrightarrow>
         \<not> (text_validation_result st = Some ''approved''
            \<or> (case text_adding_attempt_count st of None \<Rightarrow> 0 | Some k \<Rightarrow> k)
                  \<ge> MAX_TEXT_ADDING_ATTEMPTS c))"
  by (auto simp: should_retry_text_def should_retry_image_def should_retry_text_adding_def
        Let_def split: option.splits)

theorem retry_routers_decide_witness:
  "text_attempt_count initial_state = Some 0
   \<and> should_retry_text sample_config initial_state = Inr ''retry''
   \<and> should_retry_image sample_config initial_state = ''retry''
   \<and> should_retry_text_adding sample_config initial_state = ''retry''
   \<and> should_retry_text sample_config (initial_state\<lparr>text_attempt_count := Some 3\<rparr>)
       = Inr ''continue''"
  using retry_routers_decide [of initial_state 0 sample_config]
    retry_routers_decide [of "initial_state\<lparr>text_attempt_count := Some 3\<rparr>" 3 sample_config]
  by (simp add: initial_state_def sample_config_def)

section \<open>The parser of validation responses\<close>



section \<open>Facts about the stages\<close>

lemma text_generation_agent_best:
  "text_generation_agent c fs (Inr g) st = Inr (fs', st') \<Longrightarrow>
     best_text st' = (if best_text st = None then Some g else best_text st)
     \<and> generated_text st' = Some g"
  by (auto simp: text_generation_agent_def Let_def)

lemma validate_text_best:
  "validate_text (Inr r) st = Inr st' \<Longrightarrow>
     best_text st' =
       (if contains ''VALIDATION: PASS'' (upper r) then generated_text st else best_text st)"
  by (auto simp: validate_text_def Let_def)

lemma editor_agent_best:
  "editor_agent fs (Inr r) st = Inr st' \<Longrightarrow>
     best_image st' =
       (if contains ''VALIDATION: PASS'' (upper r) \<or> best_image st = None
        then current_image st else best_image st)"
  by (auto simp: editor_agent_def Let_def split: sum.splits option.splits if_splits)

lemma text_attempt_single:
  "text_attempts c [(Inr g, Inr r)] fs st = Inr (fs', st') \<Longrightarrow>
     best_text st' =
       (if best_text st = None \<or> contains ''VALIDATION: PASS'' (upper r)
        then Some g else best_text st)"
  by (auto simp: text_generation_agent_def validate_text_def Let_def)

lemma text_attempt_single_total:
  "\<exists>out. text_attempts c [(Inr g, Inr r)] fs st = Inr out"
  by (simp add: text_generation_agent_def validate_text_def Let_def)

lemma image_attempt_single:
  "image_attempts fs [(img, Inr r)] st = Inr st' \<Longrightarrow>
     best_image st' =
       (if best_image st = None \<or> contains ''VALIDATION: PASS'' (upper r)
        then Some img else best_image st)"
  by (auto simp: editor_agent_def Let_def split: sum.splits option.splits if_splits)

lemma text_attempts_rejected:
  "best_text st \<noteq> None \<Longrightarrow> list_all (\<lambda>a. rejecting (snd a)) ys \<Longrightarrow>
   text_attempts c ys fs st = Inr (fs', st') \<Longrightarrow> best_text st' = best_text st"
proof (induction ys arbitrary: fs st)
  case Nil
  then show ?case by simp
next
  case (Cons a ys)
  obtain gen_resp val_resp where a: "a = (gen_resp, val_resp)" by (cases a)
  from Cons.prems(3) a obtain g fs1 st1 r st2 where
    gen: "gen_resp = Inr g" "text_generation_agent c fs (Inr g) st = Inr (fs1, st1)" and
    val: "val_resp = Inr r" "validate_text (Inr r) st1 = Inr st2" and
    rest: "text_attempts c ys fs1 st2 = Inr (fs', st')"
    by (auto simp: text_generation_agent_def validate_text_def Let_def split: sum.splits)
  from Cons.prems(2) a val(1) have rej: "\<not> contains ''VALIDATION: PASS'' (upper r)"
    by (simp add: rejecting_def)
  from text_generation_agent_best [OF gen(2)] Cons.prems(1)
  have "best_text st1 = best_text st" by auto
  moreover from validate_text_best [OF val(2)] rej
  have "best_text st2 = best_text st1" by simp
  ultimately have eq: "best_text st2 = best_text st" by simp
  with Cons.prems(1) have "best_text st2 \<noteq> None" by simp
  moreover from Cons.prems(2) have "list_all (\<lambda>a. rejecting (snd a)) ys" by simp
  ultimately have "best_text st' = best_text st2"
    using rest by (rule Cons.IH)
  with eq show ?case by simp
qed

lemma image_attempts_rejected:
  "best_image st \<noteq> None \<Longrightarrow> list_all (\<lambda>a. rejecting (snd a)) zs \<Longrightarrow>
   image_attempts fs zs st = Inr st' \<Longrightarrow> best_image st' = best_image st"
proof (induction zs arbitrary: st)
  case Nil
  then show ?case by simp
next
  case (Cons a zs)
  obtain img val_resp where a: "a = (img, val_resp)" by (cases a)
  let ?s = "st\<lparr>current_image := Some img\<rparr>"
  from Cons.prems(3) a obtain r st1 where
    val: "val_resp = Inr r" "editor_agent fs (Inr r) ?s = Inr st1" and
    rest: "image_attempts fs zs st1 = Inr st'"
    by (auto simp: editor_agent_def split: sum.splits)
  from Cons.prems(2) a val(1) have rej: "\<not> contains ''VALIDATION: PASS'' (upper r)"
    by (simp add: rejecting_def)
  from editor_agent_best [OF val(2)] rej Cons.prems(1)
  have eq: "best_image st1 = best_image st" by simp
  with Cons.prems(1) have "best_image st1 \<noteq> None" by simp
  moreover from Cons.prems(2) have "list_all (\<lambda>a. rejecting (snd a)) zs" by simp
  ultimately have "best_image st' = best_image st1"
    using rest by (rule Cons.IH)
  with eq show ?case by simp
qed










lemma text_validation_agent_returns:
  "encode_image fs (poster_with_text st) = Inr a \<Longrightarrow>
   \<exists>st'. text_validation_agent fs resp st = Inr st'"
  by (auto simp: text_validation_agent_def split: sum.splits prod.splits)

section \<open>The candidate tracker\<close>

text \<open>
  Claim C2. An attempt of the text loop is \<open>text_generation_agent\<close> followed by
  \<open>validate_text\<close>; an attempt of the image loop is recorded by \<open>editor_agent\<close>. An
  attempt whose collaborators answer always completes. After it the best candidate is
  the candidate of this attempt when there was no best before (whatever the validator
  said) or when the validation passed, and the previous best otherwise. Hence, once a
  best exists (in particular after a passing attempt), any sequence of attempts whose
  validation fails leaves the best as it was.
\<close>

theorem candidate_tracker_latest_pass_wins:
  "(\<exists>out. text_attempts c [(Inr g, Inr r)] fs st = Inr out)
   \<and> (text_attempts c [(Inr g, Inr r)] fs st = Inr (fs1, st1) \<longrightarrow>
        best_text st1 =
          (if best_text st = None \<or> contains ''VALIDATION: PASS'' (upper r)
           then Some g else best_text st))
   \<and> (image_attempts fs [(img, Inr r)] st = Inr st2 \<longrightarrow>
        best_image st2 =
          (if best_image st = None \<or> contains ''VALIDATION: PASS'' (upper r)
           then Some img else best_image st))
   \<and> (best_text st \<noteq> None \<and> list_all (\<lambda>a. rejecting (snd a)) ys
        \<and> text_attempts c ys fs st = Inr (fs3, st3) \<longrightarrow> best_text st3 = best_text st)
   \<and> (best_image st \<noteq> None \<and> list_all (\<lambda>a. rejecting (snd a)) zs
        \<and> image_attempts fs zs st = Inr st4 \<longrightarrow> best_image st4 = best_image st)"
proof (intro conjI impI)
  show "\<exists>out. text_attempts c [(Inr g, Inr r)] fs st = Inr out"
    by (rule text_attempt_single_total)
next
  assume "text_attempts c [(Inr g, Inr r)] fs st = Inr (fs1, st1)"
  then show "best_text st1 =
      (if best_text st = None \<or> contains ''VALIDATION: PASS'' (upper r)
       then Some g else best_text st)"
    by (rule text_attempt_single)
next
  assume "image_attempts fs [(img, Inr r)] st = Inr st2"
  then show "best_image st2 =
      (if best_image st = None \<or> contains ''VALIDATION: PASS'' (upper r)
       then Some img else best_image st)"
    by (rule image_attempt_single)
next
  assume "best_text st \<noteq> None \<and> list_all (\<lambda>a. rejecting (snd a)) ys
        \<and> text_attempts c ys fs st = Inr (fs3, st3)"
  then show "best_text st3 = best_text st"
    using text_attempts_rejected [of st ys c fs fs3 st3] by simp
next
  assume "best_image st \<noteq> None \<and> list_all (\<lambda>a. rejecting (snd a)) zs
        \<and> image_attempts fs zs st = Inr st4"
  then show "best_image st4 = best_image st"
    using image_attempts_rejected [of st zs fs st4] by simp
qed


theorem candidate_tracker_latest_pass_wins_witness:
  "\<exists>fs1 st1 fs2 st2 fs3 st3 st4 st5.
     text_attempts sample_config [(Inr ''A'', Inr ''VALIDATION: FAIL'')] Map.empty initial_state
       = Inr (fs1, st1)
     \<and> best_text st1 = Some ''A''
     \<and> text_attempts sample_config [(Inr ''B'', Inr ''Validation: Pass'')] fs1 st1 = Inr (fs2, st2)
     \<and> best_text st2 = Some ''B''
     \<and> list_all (\<lambda>a. rejecting (snd a)) [(Inr ''C'', Inr ''VALIDATION: FAIL'')]
     \<and> text_attempts sample_config [(Inr ''C'', Inr ''VALIDATION: FAIL'')] fs2 st2 = Inr (fs3, st3)
     \<and> best_text st3 = Some ''B''
     \<and> image_attempts sample_files [(''input.png'', Inr ''VALIDATION: PASS'')]
          (initial_state\<lparr>input_image_path := ''input.png''\<rparr>) = Inr st4
     \<and> best_image st4 = Some ''input.png''
     \<and> list_all (\<lambda>a. rejecting (snd a)) [(''input.txt'', Inr ''VALIDATION: FAIL'')]
     \<and> image_attempts sample_files [(''input.txt'', Inr ''VALIDATION: FAIL'')] st4 = Inr st5
     \<and> best_image st5 = Some ''input.png''"
proof -
  note ctl = candidate_tracker_latest_pass_wins
  have up: "upper ''VALIDATION: FAIL'' = ''VALIDATION: FAIL''"
    "upper ''Validation: Pass'' = ''VALIDATION: PASS''"
    "upper ''VALIDATION: PASS'' = ''VALIDATION: PASS''"
    by (simp_all add: upper.simps upper_char_def)
  have rej: "list_all (\<lambda>a. rejecting (snd a)) [(Inr ''C'', Inr ''VALIDATION: FAIL'')]"
    "list_all (\<lambda>a. rejecting (snd a)) [(''input.txt'', Inr ''VALIDATION: FAIL'')]"
    by (simp_all add: rejecting_def up)
  from ctl [of sample_config "''A''" "''VALIDATION: FAIL''" Map.empty initial_state, THEN conjunct1]
  obtain outa1 where "text_attempts sample_config [(Inr ''A'', Inr ''VALIDATION: FAIL'')] Map.empty initial_state = Inr outa1" by blast
  then obtain fs1 st1 where
    a1: "text_attempts sample_config [(Inr ''A'', Inr ''VALIDATION: FAIL'')] Map.empty initial_state
          = Inr (fs1, st1)"
    by (cases outa1) simp
  have b1: "best_text st1 = Some ''A''"
    using ctl [of sample_config "''A''" "''VALIDATION: FAIL''" Map.empty initial_state fs1 st1] a1
    by (simp add: initial_state_def)
  from ctl [of sample_config "''B''" "''Validation: Pass''" fs1 st1, THEN conjunct1]
  obtain outa2 where "text_attempts sample_config [(Inr ''B'', Inr ''Validation: Pass'')] fs1 st1 = Inr outa2" by blast
  then obtain fs2 st2 where
    a2: "text_attempts sample_config [(Inr ''B'', Inr ''Validation: Pass'')] fs1 st1 = Inr (fs2, st2)"
    by (cases outa2) simp
  have b2: "best_text st2 = Some ''B''"
    using ctl [of sample_config "''B''" "''Validation: Pass''" fs1 st1 fs2 st2] a2
    by (simp add: up)
  from ctl [of sample_config "''C''" "''VALIDATION: FAIL''" fs2 st2, THEN conjunct1]
  obtain outa3 where "text_attempts sample_config [(Inr ''C'', Inr ''VALIDATION: FAIL'')] fs2 st2 = Inr outa3" by blast
  then obtain fs3 st3 where
    a3: "text_attempts sample_config [(Inr ''C'', Inr ''VALIDATION: FAIL'')] fs2 st2 = Inr (fs3, st3)"
    by (cases outa3) simp
  have b3: "best_text st3 = Some ''B''"
    using ctl [of sample_config "''C''" "''VALIDATION: FAIL''" fs2 st2 _ _ _ _
        "[(Inr ''C'', Inr ''VALIDATION: FAIL'')]" fs3 st3] a3 b2 rej(1)
    by simp
  let ?s0 = "initial_state\<lparr>input_image_path := ''input.png''\<rparr>"
  obtain st4 where
    a4: "image_attempts sample_files [(''input.png'', Inr ''VALIDATION: PASS'')] ?s0 = Inr st4"
    by (simp add: editor_agent_def encode_image_def sample_files_def Let_def up
          initial_state_def)
  have b4: "best_image st4 = Some ''input.png''"
    using ctl [of sample_config "''A''" "''VALIDATION: PASS''" sample_files ?s0 _ _
        "''input.png''" st4] a4
    by (simp add: up)
  have "\<exists>st5. image_attempts sample_files [(''input.txt'', Inr ''VALIDATION: FAIL'')] st4 = Inr st5"
    using a4
    by (auto simp: editor_agent_def encode_image_def sample_files_def Let_def up
          initial_state_def split: if_splits)
  then obtain st5 where
    a5: "image_attempts sample_files [(''input.txt'', Inr ''VALIDATION: FAIL'')] st4 = Inr st5"
    by blast
  have b5: "best_image st5 = Some ''input.png''"
    using ctl [of sample_config "''A''" "''VALIDATION: FAIL''" sample_files st4 _ _ _ _ _ _ _
        "[(''input.txt'', Inr ''VALIDATION: FAIL'')]" st5] a5 b4 rej(2)
    by simp
  from a1 b1 a2 b2 rej a3 b3 a4 b4 a5 b5 show ?thesis by blast
qed

section \<open>Where the validation results are stored\<close>




section \<open>The two signals of the image validator\<close>

text \<open>
  Claim C7. When the image validator can read both images and the response carries
  \<open>VALIDATION: PASS\<close> in any letter case but not \<open>LOGO_INTEGRATED: YES\<close>, the stage
  returns, the stored feedback is the response followed by the fixed note (two line
  feeds and the sentence written out below), appended once, so it is not the bare
  response, and the passed flag is true. Whenever the stage returns, the passed flag
  is decided by the \<open>VALIDATION: PASS\<close> marker alone.
\<close>

theorem image_validation_two_tier:
  "(encode_image fs (current_image st) = Inr a
    \<and> encode_image fs (Some (input_image_path st)) = Inr b
    \<and> contains ''VALIDATION: PASS'' (upper r)
    \<and> \<not> contains ''LOGO_INTEGRATED: YES'' (upper r)
    \<longrightarrow> (\<exists>st'. editor_agent fs (Inr r) st = Inr st'
           \<and> validation_feedback st' =
               Some (r @ [CHR 0x0A, CHR 0x0A] @
                ''IMPORTANT: Logo not properly integrated. Must revert to input.png as base.'')
           \<and> validation_feedback st' \<noteq> Some r
           \<and> validation_passed st'))
   \<and> (editor_agent fs (Inr r) st = Inr st'' \<longrightarrow>
        validation_passed st'' = contains ''VALIDATION: PASS'' (upper r)
        \<and> validation_feedback st'' =
            Some (if contains ''LOGO_INTEGRATED: YES'' (upper r) then r
                  else r @ [CHR 0x0A, CHR 0x0A] @
                ''IMPORTANT: Logo not properly integrated. Must revert to input.png as base.''))"
  by (auto simp: editor_agent_def Let_def LOGO_NOTE_def
        split: sum.splits option.splits if_splits)

theorem image_validation_two_tier_witness:
  "encode_image sample_files (current_image
        (initial_state\<lparr>input_image_path := ''input.png'', current_image := Some ''input.png''\<rparr>))
     = Inr ''logo''
   \<and> contains ''VALIDATION: PASS'' (upper ''Validation: pass'')
   \<and> \<not> contains ''LOGO_INTEGRATED: YES'' (upper ''Validation: pass'')
   \<and> (\<exists>st'. editor_agent sample_files (Inr ''Validation: pass'')
               (initial_state\<lparr>input_image_path := ''input.png'',
                               current_image := Some ''input.png''\<rparr>) = Inr st'
          \<and> validation_feedback st' =
              Some (''Validation: pass'' @ [CHR 0x0A, CHR 0x0A] @
                ''IMPORTANT: Logo not properly integrated. Must revert to input.png as base.'')
          \<and> validation_feedback st' \<noteq> Some ''Validation: pass''
          \<and> validation_passed st')"
proof -
  let ?st = "initial_state\<lparr>input_image_path := ''input.png'', current_image := Some ''input.png''\<rparr>"
  have a: "encode_image sample_files (current_image ?st) = Inr ''logo''"
    by (simp add: encode_image_def sample_files_def)
  have b: "encode_image sample_files (Some (input_image_path ?st)) = Inr ''logo''"
    by (simp add: encode_image_def sample_files_def)
  have c: "contains ''VALIDATION: PASS'' (upper ''Validation: pass'')"
    by (simp add: upper.simps upper_char_def)
  have d: "\<not> contains ''LOGO_INTEGRATED: YES'' (upper ''Validation: pass'')"
    by (simp add: upper.simps upper_char_def)
  from image_validation_two_tier [of sample_files ?st "''logo''" "''logo''" "''Validation: pass''"]
    a b c d
  show ?thesis by blast
qed

section \<open>Facts about runs of the graph\<close>

lemma load_input_counters:
  "load_input c fs st = Inr st' \<Longrightarrow>
     text_attempt_count st' = Some 0 \<and> image_attempt_count st' = 0"
  by (auto simp: load_input_def split: option.splits)

lemma planning_agent_counters:
  "planning_agent c fs resp st = Inr (fs', st') \<Longrightarrow>
     text_attempt_count st' = text_attempt_count st
     \<and> image_attempt_count st' = image_attempt_count st"
  by (auto simp: planning_agent_def split: sum.splits)

lemma text_generation_agent_counters:
  "text_generation_agent c fs resp st = Inr (fs', st') \<Longrightarrow>
     text_attempt_count st' =
       Some ((case text_attempt_count st of None \<Rightarrow> 0 | Some n \<Rightarrow> n) + 1)
     \<and> image_attempt_count st' = image_attempt_count st"
  by (auto simp: text_generation_agent_def Let_def split: sum.splits)

lemma validate_text_counters:
  "validate_text resp st = Inr st' \<Longrightarrow>
     text_attempt_count st' = text_attempt_count st
     \<and> image_attempt_count st' = image_attempt_count st"
  by (auto simp: validate_text_def Let_def split: sum.splits)

lemma editor_agent_counters:
  "editor_agent fs resp st = Inr st' \<Longrightarrow>
     text_attempt_count st' = text_attempt_count st
     \<and> image_attempt_count st' = image_attempt_count st"
  by (auto simp: editor_agent_def Let_def split: sum.splits option.splits if_splits)

lemma calling_Inr:
  "calling w r = Inr (w', st') \<Longrightarrow> \<exists>fs'. r = Inr (fs', st')"
  by (auto simp: calling_def split: sum.splits)

lemma invoke_routed_invariant:
  assumes step: "\<And>nd st w w' st'. I nd st \<Longrightarrow> run_node ev nd w st = Inr (w', st') \<Longrightarrow>
      (case edges (conf ev) nd of
         Edge nxt \<Rightarrow> I nxt st'
       | Conditional router path_map \<Rightarrow>
           (\<forall>label. router st' = Inr label \<longrightarrow>
              Q nd label st'
              \<and> (\<forall>nxt. conditional_edge path_map label = Inr nxt \<longrightarrow> I nxt st')))"
  shows "I nd st \<Longrightarrow> Routed rn rl s \<in> set (fst (invoke ev limit nd w st)) \<Longrightarrow> Q rn rl s"
proof (induction limit arbitrary: nd w st)
  case 0
  then show ?case by (cases nd) auto
next
  case (Suc limit)
  show ?case
  proof (cases "nd = END")
    case True
    with Suc.prems show ?thesis by simp
  next
    case nd: False
    show ?thesis
    proof (cases "run_node ev nd w st")
      case (Inl e)
      with nd Suc.prems(2) show ?thesis by (cases nd) auto
    next
      case (Inr p)
      obtain w' st' where p: "p = (w', st')" by (cases p)
      note run = Inr [unfolded p]
      note here = step [OF Suc.prems(1) run]
      show ?thesis
      proof (cases "edges (conf ev) nd")
        case (Edge nxt)
        with here have inv: "I nxt st'" by simp
        from nd run Edge have
          "invoke ev (Suc limit) nd w st = after [Executed nd st'] (invoke ev limit nxt w' st')"
          by (cases nd) auto
        with Suc.prems(2) have
          "Routed rn rl s \<in> set (fst (invoke ev limit nxt w' st'))"
          by (auto simp: after_def)
        with inv show ?thesis by (rule Suc.IH)
      next
        case (Conditional router path_map)
        show ?thesis
        proof (cases "router st'")
          case (Inl e)
          with nd run Conditional have
            "invoke ev (Suc limit) nd w st = ([Executed nd st', Raised nd e], Failed e)"
            by (cases nd) auto
          with Suc.prems(2) show ?thesis by simp
        next
          case (Inr label)
          with here Conditional have
            q: "Q nd label st'" and
            nxt: "\<And>nxt. conditional_edge path_map label = Inr nxt \<Longrightarrow> I nxt st'"
            by auto
          show ?thesis
          proof (cases "conditional_edge path_map label")
            case (Inl e)
            with nd run Conditional \<open>router st' = Inr label\<close> have
              "invoke ev (Suc limit) nd w st
                 = ([Executed nd st', Routed nd label st', Raised nd e], Failed e)"
              by (cases nd) auto
            with Suc.prems(2) q show ?thesis by auto
          next
            case (Inr nxt')
            with nd run Conditional \<open>router st' = Inr label\<close> have
              "invoke ev (Suc limit) nd w st
                 = after [Executed nd st', Routed nd label st'] (invoke ev limit nxt' w' st')"
              by (cases nd) auto
            with Suc.prems(2) have
              "(rn = nd \<and> rl = label \<and> s = st')
               \<or> Routed rn rl s \<in> set (fst (invoke ev limit nxt' w' st'))"
              by (auto simp: after_def)
            then show ?thesis
            proof
              assume "rn = nd \<and> rl = label \<and> s = st'"
              with q show ?thesis by simp
            next
              assume "Routed rn rl s \<in> set (fst (invoke ev limit nxt' w' st'))"
              with nxt [OF Inr] show ?thesis by (rule Suc.IH)
            qed
          qed
        qed
      qed
    qed
  qed
qed

lemma text_counter_step:
  assumes "1 \<le> MAX_TEXT_ATTEMPTS (conf ev)"
    and "text_counter_inv (conf ev) nd st"
    and "run_node ev nd w st = Inr (w', st')"
  shows "case edges (conf ev) nd of
           Edge nxt \<Rightarrow> text_counter_inv (conf ev) nxt st'
         | Conditional router path_map \<Rightarrow>
             (\<forall>label. router st' = Inr label \<longrightarrow>
                (nd = Text_validation \<and> label = ''continue'' \<longrightarrow>
                   (\<exists>k. text_attempt_count st' = Some k \<and> 1 \<le> k
                        \<and> k \<le> MAX_TEXT_ATTEMPTS (conf ev)))
                \<and> (\<forall>nxt. conditional_edge path_map label = Inr nxt \<longrightarrow>
                      text_counter_inv (conf ev) nxt st'))"
proof (cases nd)
  case Load_input
  with assms show ?thesis
    by (auto split: sum.splits dest: load_input_counters)
next
  case Planning
  with assms show ?thesis
    by (auto dest!: calling_Inr planning_agent_counters)
next
  case Text_generation
  with assms show ?thesis
    by (auto dest!: calling_Inr text_generation_agent_counters)
next
  case Text_validation
  with assms(2,3) obtain k where
    k: "text_attempt_count st' = Some k" "1 \<le> k" "k \<le> MAX_TEXT_ATTEMPTS (conf ev)"
    by (auto split: sum.splits dest!: validate_text_counters)
  with Text_validation show ?thesis
    by (auto simp: should_retry_text_def conditional_edge_def split: if_splits)
qed (use assms in \<open>auto simp: conditional_edge_def split: if_splits\<close>)

lemma image_counter_step:
  assumes "1 \<le> MAX_IMAGE_ATTEMPTS (conf ev)"
    and gen: "\<forall>w st w' st'. image_generation_agent ev w st = Inr (w', st') \<longrightarrow>
                image_attempt_count st' = image_attempt_count st + 1"
    and "image_counter_inv (conf ev) nd st"
    and "run_node ev nd w st = Inr (w', st')"
  shows "case edges (conf ev) nd of
           Edge nxt \<Rightarrow> image_counter_inv (conf ev) nxt st'
         | Conditional router path_map \<Rightarrow>
             (\<forall>label. router st' = Inr label \<longrightarrow>
                (nd = Image_validation \<and> label = ''continue'' \<longrightarrow>
                   1 \<le> image_attempt_count st'
                   \<and> image_attempt_count st' \<le> MAX_IMAGE_ATTEMPTS (conf ev))
                \<and> (\<forall>nxt. conditional_edge path_map label = Inr nxt \<longrightarrow>
                      image_counter_inv (conf ev) nxt st'))"
proof (cases nd)
  case Load_input
  with assms show ?thesis
    by (auto split: sum.splits dest: load_input_counters)
next
  case Planning
  with assms show ?thesis
    by (auto dest!: calling_Inr planning_agent_counters)
next
  case Text_generation
  with assms show ?thesis
    by (auto dest!: calling_Inr text_generation_agent_counters)
next
  case Text_validation
  with assms(3,4) have "image_attempt_count st' = 0"
    by (auto split: sum.splits dest!: validate_text_counters)
  with Text_validation assms(1) show ?thesis
    by (auto simp: conditional_edge_def split: if_splits)
next
  case Image_generation
  with assms(3,4) gen have "image_attempt_count st' = image_attempt_count st + 1"
    by simp
  with Image_generation assms(3) show ?thesis by simp
next
  case Image_validation
  with assms(3,4) have
    "1 \<le> image_attempt_count st'" "image_attempt_count st' \<le> MAX_IMAGE_ATTEMPTS (conf ev)"
    by (auto split: sum.splits dest!: editor_agent_counters)
  with Image_validation show ?thesis
    by (auto simp: should_retry_image_def conditional_edge_def split: if_splits)
qed (use assms in \<open>auto simp: conditional_edge_def split: if_splits\<close>)

lemma text_counter_bound_main:
  assumes "1 \<le> MAX_TEXT_ATTEMPTS (conf ev)"
    and "Routed Text_validation ''continue'' s \<in> set (fst (main ev limit w))"
  shows "\<exists>k. text_attempt_count s = Some k \<and> 1 \<le> k \<and> k \<le> MAX_TEXT_ATTEMPTS (conf ev)"
proof -
  let ?Q = "\<lambda>nd label st'. nd = Text_validation \<and> label = ''continue'' \<longrightarrow>
              (\<exists>k. text_attempt_count st' = Some k \<and> 1 \<le> k
                   \<and> k \<le> MAX_TEXT_ATTEMPTS (conf ev))"
  have "?Q Text_validation ''continue'' s"
  proof (rule invoke_routed_invariant
      [where I = "text_counter_inv (conf ev)" and Q = ?Q and ev = ev])
    show "text_counter_inv (conf ev) Load_pipeline initial_state" by simp
    show "Routed Text_validation ''continue'' s
            \<in> set (fst (invoke ev limit Load_pipeline w initial_state))"
      using assms(2) by (simp add: main_def)
  qed (rule text_counter_step [OF assms(1)])
  then show ?thesis by simp
qed

lemma image_counter_bound_main:
  assumes "1 \<le> MAX_IMAGE_ATTEMPTS (conf ev)"
    and "\<forall>w st w' st'. image_generation_agent ev w st = Inr (w', st') \<longrightarrow>
                image_attempt_count st' = image_attempt_count st + 1"
    and "Routed Image_validation ''continue'' s \<in> set (fst (main ev limit w))"
  shows "1 \<le> image_attempt_count s \<and> image_attempt_count s \<le> MAX_IMAGE_ATTEMPTS (conf ev)"
proof -
  let ?Q = "\<lambda>nd label st'. nd = Image_validation \<and> label = ''continue'' \<longrightarrow>
              1 \<le> image_attempt_count st'
              \<and> image_attempt_count st' \<le> MAX_IMAGE_ATTEMPTS (conf ev)"
  have "?Q Image_validation ''continue'' s"
  proof (rule invoke_routed_invariant
      [where I = "image_counter_inv (conf ev)" and Q = ?Q and ev = ev])
    show "image_counter_inv (conf ev) Load_pipeline initial_state" by simp
    show "Routed Image_validation ''continue'' s
            \<in> set (fst (invoke ev limit Load_pipeline w initial_state))"
      using assms(3) by (simp add: main_def)
  qed (rule image_counter_step [OF assms(1,2)])
  then show ?thesis by simp
qed

lemma sample_run_events:
  "\<exists>s s'. Routed Text_validation ''continue'' s
           \<in> set (fst (main (sample_env (\<lambda>k. Inr ''VALIDATION: PASS'')) 7
                         \<lparr>files = sample_files, calls = 0\<rparr>))
        \<and> text_attempt_count s = Some 1
        \<and> Routed Image_validation ''continue'' s'
           \<in> set (fst (main (sample_env (\<lambda>k. Inr ''VALIDATION: PASS'')) 7
                         \<lparr>files = sample_files, calls = 0\<rparr>))
        \<and> image_attempt_count s' = 1"
  by (simp add: main_def eval_nat_numeral sample_env_def sample_config_def sample_files_def
        load_pipeline_def load_input_def planning_agent_def text_generation_agent_def
        validate_text_def editor_agent_def encode_image_def calling_def after_def
        should_retry_text_def should_retry_image_def conditional_edge_def
        upper.simps upper_char_def initial_state_def Let_def)

lemma text_iteration:
  assumes "llm ev (calls w) = Inr g" and "llm ev (Suc (calls w)) = Inr r"
    and "text_attempt_count st = Some k"
  shows "invoke ev (Suc (Suc n)) Text_generation w st =
     (let s1 = st\<lparr>text_attempt_count := Some (k + 1), generated_text := Some g,
                   best_text := (if best_text st = None then Some g else best_text st)\<rparr>;
          passed = contains ''VALIDATION: PASS'' (upper r);
          s2 = (if passed
                then s1\<lparr>validation_feedback := Some r, validation_passed := True,
                        best_text := Some g\<rparr>
                else s1\<lparr>validation_feedback := Some r, validation_passed := False\<rparr>);
          w2 = w\<lparr>files := (files w)(path_join (INTERMEDIATE_DIR (conf ev))
                                (''text_attempt'' @ str_int (k + 1) @ ''.txt'') \<mapsto> g),
                 calls := Suc (Suc (calls w))\<rparr>;
          go_on = (passed \<or> MAX_TEXT_ATTEMPTS (conf ev) \<le> k + 1)
      in after [Executed Text_generation s1, Executed Text_validation s2,
                Routed Text_validation (if go_on then ''continue'' else ''retry'') s2]
           (invoke ev n (if go_on then Image_generation else Text_generation) w2 s2))"
  using assms
  by (simp add: text_generation_agent_def validate_text_def calling_def after_def
        should_retry_text_def conditional_edge_def Let_def)

lemma after_after: "after xs (after ys r) = after (xs @ ys) r"
  by (simp add: after_def)

lemma text_iteration_ex:
  assumes "llm ev (calls w) = Inr g" and "llm ev (Suc (calls w)) = Inr r"
    and "text_attempt_count st = Some k"
  shows "\<exists>s1 s2 w2.
     invoke ev (Suc (Suc n)) Text_generation w st =
       after [Executed Text_generation s1, Executed Text_validation s2,
              Routed Text_validation
                (if contains ''VALIDATION: PASS'' (upper r) \<or> MAX_TEXT_ATTEMPTS (conf ev) \<le> k + 1
                 then ''continue'' else ''retry'') s2]
         (invoke ev n
            (if contains ''VALIDATION: PASS'' (upper r) \<or> MAX_TEXT_ATTEMPTS (conf ev) \<le> k + 1
             then Image_generation else Text_generation) w2 s2)
     \<and> generated_text s1 = Some g
     \<and> text_attempt_count s2 = Some (k + 1)
     \<and> best_text s2 =
         (if best_text st = None \<or> contains ''VALIDATION: PASS'' (upper r)
          then Some g else best_text st)
     \<and> calls w2 = Suc (Suc (calls w))"
proof -
  let ?s1 = "st\<lparr>text_attempt_count := Some (k + 1), generated_text := Some g,
                   best_text := (if best_text st = None then Some g else best_text st)\<rparr>"
  let ?s2 = "if contains ''VALIDATION: PASS'' (upper r)
             then ?s1\<lparr>validation_feedback := Some r, validation_passed := True,
                       best_text := Some g\<rparr>
             else ?s1\<lparr>validation_feedback := Some r, validation_passed := False\<rparr>"
  let ?w2 = "w\<lparr>files := (files w)(path_join (INTERMEDIATE_DIR (conf ev))
                                (''text_attempt'' @ str_int (k + 1) @ ''.txt'') \<mapsto> g),
                 calls := Suc (Suc (calls w))\<rparr>"
  have "invoke ev (Suc (Suc n)) Text_generation w st =
       after [Executed Text_generation ?s1, Executed Text_validation ?s2,
              Routed Text_validation
                (if contains ''VALIDATION: PASS'' (upper r) \<or> MAX_TEXT_ATTEMPTS (conf ev) \<le> k + 1
                 then ''continue'' else ''retry'') ?s2]
         (invoke ev n
            (if contains ''VALIDATION: PASS'' (upper r) \<or> MAX_TEXT_ATTEMPTS (conf ev) \<le> k + 1
             then Image_generation else Text_generation) ?w2 ?s2)"
    using text_iteration [OF assms, of n] unfolding Let_def .
  moreover have "generated_text ?s1 = Some g" "text_attempt_count ?s2 = Some (k + 1)"
    "best_text ?s2 =
         (if best_text st = None \<or> contains ''VALIDATION: PASS'' (upper r)
          then Some g else best_text st)"
    "calls ?w2 = Suc (Suc (calls w))"
    by simp_all
  ultimately show ?thesis by blast
qed

lemma invoke_raises:
  "run_node ev nd w st = Inl e \<Longrightarrow> invoke ev (Suc n) nd w st = ([Raised nd e], Failed e)"
  by (cases nd) auto

lemma text_validation_agent_error:
  "encode_image fs (poster_with_text st) = Inr img \<Longrightarrow>
   text_validation_agent fs (Inl e) st =
     Inr (st\<lparr>text_validation_result := Some ''rejected'',
            text_validation_feedback := Some (''Validation failed due to error: '' @ error_str e),
            text_is_correct := Some False, text_is_clear := Some False,
            found_text := None, specific_fix := None\<rparr>)"
  by (simp add: text_validation_agent_def)

section \<open>The attempt counters\<close>

text \<open>
  Claim C4. The text-generation stage increments \<open>text_attempt_count\<close> by exactly one
  (from 0 when it was \<open>None\<close>) and the validators leave both counters as they are. In
  every run of the graph from \<open>main\<close>, with a maximum of at least 1, at every point
  where \<open>should_retry_text\<close> returns \<open>continue\<close> the text counter is between 1 and
  \<open>MAX_TEXT_ATTEMPTS\<close>. The generation stage of the image loop is not among the
  source files; for every such stage that increments \<open>image_attempt_count\<close> by one,
  the image counter is between 1 and \<open>MAX_IMAGE_ATTEMPTS\<close> wherever
  \<open>should_retry_image\<close> returns \<open>continue\<close>.
\<close>

theorem attempt_counter_bound:
  "(text_generation_agent c fs resp st = Inr (fs1, st1) \<longrightarrow>
      text_attempt_count st1 =
        Some ((case text_attempt_count st of None \<Rightarrow> 0 | Some n \<Rightarrow> n) + 1))
   \<and> (validate_text resp st = Inr st2 \<longrightarrow> text_attempt_count st2 = text_attempt_count st)
   \<and> (editor_agent fs resp st = Inr st3 \<longrightarrow> image_attempt_count st3 = image_attempt_count st)
   \<and> (1 \<le> MAX_TEXT_ATTEMPTS (conf ev)
        \<and> Routed Text_validation ''continue'' s \<in> set (fst (main ev limit w))
      \<longrightarrow> (\<exists>k. text_attempt_count s = Some k \<and> 1 \<le> k \<and> k \<le> MAX_TEXT_ATTEMPTS (conf ev)))
   \<and> (1 \<le> MAX_IMAGE_ATTEMPTS (conf ev)
        \<and> (\<forall>w0 s0 w1 s1. image_generation_agent ev w0 s0 = Inr (w1, s1) \<longrightarrow>
              image_attempt_count s1 = image_attempt_count s0 + 1)
        \<and> Routed Image_validation ''continue'' s \<in> set (fst (main ev limit w))
      \<longrightarrow> 1 \<le> image_attempt_count s \<and> image_attempt_count s \<le> MAX_IMAGE_ATTEMPTS (conf ev))"
proof (intro conjI impI)
  assume "text_generation_agent c fs resp st = Inr (fs1, st1)"
  then show "text_attempt_count st1 =
        Some ((case text_attempt_count st of None \<Rightarrow> 0 | Some n \<Rightarrow> n) + 1)"
    by (simp add: text_generation_agent_counters)
next
  assume "validate_text resp st = Inr st2"
  then show "text_attempt_count st2 = text_attempt_count st"
    by (simp add: validate_text_counters)
next
  assume "editor_agent fs resp st = Inr st3"
  then show "image_attempt_count st3 = image_attempt_count st"
    by (simp add: editor_agent_counters)
next
  assume "1 \<le> MAX_TEXT_ATTEMPTS (conf ev)
        \<and> Routed Text_validation ''continue'' s \<in> set (fst (main ev limit w))"
  then show "\<exists>k. text_attempt_count s = Some k \<and> 1 \<le> k \<and> k \<le> MAX_TEXT_ATTEMPTS (conf ev)"
    using text_counter_bound_main [of ev s limit w] by blast
next
  assume h: "1 \<le> MAX_IMAGE_ATTEMPTS (conf ev)
        \<and> (\<forall>w0 s0 w1 s1. image_generation_agent ev w0 s0 = Inr (w1, s1) \<longrightarrow>
              image_attempt_count s1 = image_attempt_count s0 + 1)
        \<and> Routed Image_validation ''continue'' s \<in> set (fst (main ev limit w))"
  then have b: "1 \<le> image_attempt_count s \<and> image_attempt_count s \<le> MAX_IMAGE_ATTEMPTS (conf ev)"
    using image_counter_bound_main [of ev s limit w] by blast
  from b show "1 \<le> image_attempt_count s" ..
  from b show "image_attempt_count s \<le> MAX_IMAGE_ATTEMPTS (conf ev)" ..
qed

theorem attempt_counter_bound_witness:
  "1 \<le> MAX_TEXT_ATTEMPTS (conf (sample_env (\<lambda>k. Inr ''VALIDATION: PASS'')))
   \<and> 1 \<le> MAX_IMAGE_ATTEMPTS (conf (sample_env (\<lambda>k. Inr ''VALIDATION: PASS'')))
   \<and> (\<exists>s. Routed Text_validation ''continue'' s
             \<in> set (fst (main (sample_env (\<lambda>k. Inr ''VALIDATION: PASS'')) 7
                           \<lparr>files = sample_files, calls = 0\<rparr>))
          \<and> (\<exists>k. text_attempt_count s = Some k \<and> 1 \<le> k
                \<and> k \<le> MAX_TEXT_ATTEMPTS (conf (sample_env (\<lambda>k. Inr ''VALIDATION: PASS'')))))
   \<and> (\<exists>s. Routed Image_validation ''continue'' s
             \<in> set (fst (main (sample_env (\<lambda>k. Inr ''VALIDATION: PASS'')) 7
                           \<lparr>files = sample_files, calls = 0\<rparr>))
          \<and> 1 \<le> image_attempt_count s
          \<and> image_attempt_count s
               \<le> MAX_IMAGE_ATTEMPTS (conf (sample_env (\<lambda>k. Inr ''VALIDATION: PASS''))))"
proof -
  let ?ev = "sample_env (\<lambda>k. Inr ''VALIDATION: PASS'')"
  let ?w = "\<lparr>files = sample_files, calls = 0\<rparr>"
  have mt: "1 \<le> MAX_TEXT_ATTEMPTS (conf ?ev)" and mi: "1 \<le> MAX_IMAGE_ATTEMPTS (conf ?ev)"
    by (simp_all add: sample_env_def sample_config_def)
  have gen: "\<forall>w0 s0 w1 s1. image_generation_agent ?ev w0 s0 = Inr (w1, s1) \<longrightarrow>
              image_attempt_count s1 = image_attempt_count s0 + 1"
    by (auto simp: sample_env_def)
  from sample_run_events obtain s s' where
    t: "Routed Text_validation ''continue'' s \<in> set (fst (main ?ev 7 ?w))" and
    i: "Routed Image_validation ''continue'' s' \<in> set (fst (main ?ev 7 ?w))"
    by blast
  from attempt_counter_bound [where ev = ?ev and s = s and limit = 7 and w = ?w] mt t
  have bt: "\<exists>k. text_attempt_count s = Some k \<and> 1 \<le> k \<and> k \<le> MAX_TEXT_ATTEMPTS (conf ?ev)"
    by blast
  from attempt_counter_bound [where ev = ?ev and s = s' and limit = 7 and w = ?w] mi gen i
  have bi: "1 \<le> image_attempt_count s' \<and> image_attempt_count s' \<le> MAX_IMAGE_ATTEMPTS (conf ?ev)"
    by blast
  from mt mi t bt i bi show ?thesis by blast
qed

section \<open>Failing collaborators\<close>

text \<open>
  Claim C5 says that an error of any validation collaborator is turned into a
  rejection. In \<open>validate_text\<close> the call is not guarded: the error leaves the stage
  and ends the run.
\<close>

theorem validation_error_aborts_counterexample:
  "validate_text (Inl (CollaboratorError ''timeout'')) initial_state
     = Inl (CollaboratorError ''timeout'')
   \<and> invoke (sample_env (\<lambda>k. Inl (CollaboratorError ''timeout''))) 5 Text_validation
       \<lparr>files = sample_files, calls = 0\<rparr> initial_state
     = ([Raised Text_validation (CollaboratorError ''timeout'')],
        Failed (CollaboratorError ''timeout''))"
  by (simp add: validate_text_def sample_env_def eval_nat_numeral)

text \<open>
  Claim C5, amended. When the call of the overlay validator raises (and the poster
  could be read), \<open>text_validation_agent\<close> returns the state with the result
  \<open>rejected\<close>, both flags false, no extracted fields and the error in the feedback;
  the stage returns whatever the collaborator does, and \<open>should_retry_text_adding\<close>
  then answers \<open>retry\<close> as long as the attempt count is below the maximum. An error
  raised by the call in \<open>validate_text\<close>, \<open>editor_agent\<close>, \<open>text_generation_agent\<close> or
  \<open>planning_agent\<close> leaves the stage, and an exception that leaves a stage ends the
  run.
\<close>

theorem collaborator_failure_handling:
  "(encode_image fs (poster_with_text st) = Inr img \<longrightarrow>
      text_validation_agent fs (Inl e) st =
        Inr (st\<lparr>text_validation_result := Some ''rejected'',
               text_validation_feedback :=
                 Some (''Validation failed due to error: '' @ error_str e),
               text_is_correct := Some False, text_is_clear := Some False,
               found_text := None, specific_fix := None\<rparr>)
      \<and> (\<exists>st'. text_validation_agent fs resp st = Inr st')
      \<and> (\<forall>st'. text_validation_agent fs (Inl e) st = Inr st' \<longrightarrow>
            should_retry_text_adding c st' =
              (if (case text_adding_attempt_count st of None \<Rightarrow> 0 | Some n \<Rightarrow> n)
                    < MAX_TEXT_ADDING_ATTEMPTS c
               then ''retry'' else ''continue'')))
   \<and> validate_text (Inl e) st = Inl e
   \<and> (\<exists>e'. editor_agent fs (Inl e) st = Inl e')
   \<and> text_generation_agent c fs (Inl e) st = Inl e
   \<and> (\<exists>e'. planning_agent c fs (Inl e) st = Inl e')
   \<and> (run_node ev nd w st = Inl e \<longrightarrow>
        invoke ev (Suc n) nd w st = ([Raised nd e], Failed e))"
proof (intro conjI impI allI)
  assume img: "encode_image fs (poster_with_text st) = Inr img"
  show rej: "text_validation_agent fs (Inl e) st =
        Inr (st\<lparr>text_validation_result := Some ''rejected'',
               text_validation_feedback :=
                 Some (''Validation failed due to error: '' @ error_str e),
               text_is_correct := Some False, text_is_clear := Some False,
               found_text := None, specific_fix := None\<rparr>)"
    using img by (rule text_validation_agent_error)
  show "\<exists>st'. text_validation_agent fs resp st = Inr st'"
    using img by (rule text_validation_agent_returns)
  fix st'
  assume "text_validation_agent fs (Inl e) st = Inr st'"
  with rej show "should_retry_text_adding c st' =
              (if (case text_adding_attempt_count st of None \<Rightarrow> 0 | Some n \<Rightarrow> n)
                    < MAX_TEXT_ADDING_ATTEMPTS c
               then ''retry'' else ''continue'')"
    by (auto simp: should_retry_text_adding_def)
next
  show "validate_text (Inl e) st = Inl e"
    by (simp add: validate_text_def)
  show "\<exists>e'. editor_agent fs (Inl e) st = Inl e'"
    by (simp add: editor_agent_def split: sum.splits)
  show "text_generation_agent c fs (Inl e) st = Inl e"
    by (simp add: text_generation_agent_def)
  show "\<exists>e'. planning_agent c fs (Inl e) st = Inl e'"
    by (simp add: planning_agent_def split: sum.splits)
next
  assume "run_node ev nd w st = Inl e"
  then show "invoke ev (Suc n) nd w st = ([Raised nd e], Failed e)"
    by (rule invoke_raises)
qed

theorem collaborator_failure_handling_witness:
  "encode_image sample_files
     (poster_with_text (initial_state\<lparr>poster_with_text := Some ''input.png'',
                                       text_adding_attempt_count := Some 2\<rparr>)) = Inr ''logo''
   \<and> (\<exists>st'. text_validation_agent sample_files (Inl (CollaboratorError ''timeout''))
         (initial_state\<lparr>poster_with_text := Some ''input.png'',
                         text_adding_attempt_count := Some 2\<rparr>) = Inr st'
        \<and> text_validation_result st' = Some ''rejected''
        \<and> should_retry_text_adding sample_config st' = ''retry'')
   \<and> run_node (sample_env (\<lambda>k. Inl (CollaboratorError ''timeout''))) Text_generation
        \<lparr>files = sample_files, calls = 0\<rparr> initial_state = Inl (CollaboratorError ''timeout'')
   \<and> invoke (sample_env (\<lambda>k. Inl (CollaboratorError ''timeout''))) (Suc 0) Text_generation
        \<lparr>files = sample_files, calls = 0\<rparr> initial_state
       = ([Raised Text_generation (CollaboratorError ''timeout'')],
          Failed (CollaboratorError ''timeout''))"
proof -
  let ?st = "initial_state\<lparr>poster_with_text := Some ''input.png'',
                           text_adding_attempt_count := Some 2\<rparr>"
  let ?ev = "sample_env (\<lambda>k. Inl (CollaboratorError ''timeout''))"
  let ?w = "\<lparr>files = sample_files, calls = 0\<rparr>"
  have a: "encode_image sample_files (poster_with_text ?st) = Inr ''logo''"
    by (simp add: encode_image_def sample_files_def)
  have b: "run_node ?ev Text_generation ?w initial_state = Inl (CollaboratorError ''timeout'')"
    by (simp add: sample_env_def text_generation_agent_def calling_def)
  note cfh = collaborator_failure_handling
    [where fs = sample_files and st = ?st and img = "''logo''"
       and e = "CollaboratorError ''timeout''" and c = sample_config]
  from cfh a obtain st' where
    s: "text_validation_agent sample_files (Inl (CollaboratorError ''timeout'')) ?st = Inr st'"
    by blast
  from cfh a have "\<forall>st'. text_validation_agent sample_files (Inl (CollaboratorError ''timeout'')) ?st
          = Inr st' \<longrightarrow>
        should_retry_text_adding sample_config st' =
          (if (case text_adding_attempt_count ?st of None \<Rightarrow> 0 | Some n \<Rightarrow> n)
                < MAX_TEXT_ADDING_ATTEMPTS sample_config
           then ''retry'' else ''continue'')"
    by blast
  with s have "should_retry_text_adding sample_config st' =
          (if (case text_adding_attempt_count ?st of None \<Rightarrow> 0 | Some n \<Rightarrow> n)
                < MAX_TEXT_ADDING_ATTEMPTS sample_config
           then ''retry'' else ''continue'')"
    by blast
  then have r: "should_retry_text_adding sample_config st' = ''retry''"
    by (simp add: sample_config_def)
  from cfh a s have t: "text_validation_result st' = Some ''rejected''"
    by auto
  from collaborator_failure_handling
    [where e = "CollaboratorError ''timeout''" and ev = ?ev and nd = Text_generation
       and w = ?w and st = initial_state and n = 0] b
  have i: "invoke ?ev (Suc 0) Text_generation ?w initial_state
       = ([Raised Text_generation (CollaboratorError ''timeout'')],
          Failed (CollaboratorError ''timeout''))"
    by blast
  from a s t r b i show ?thesis by blast
qed

section \<open>Three failing text attempts\<close>

text \<open>
  Claim C8. With \<open>MAX_TEXT_ATTEMPTS = 3\<close>, a loop entered with the counter at 0 and no
  best text, a generator that answers three times and a validator whose three answers
  all lack \<open>VALIDATION: PASS\<close>: the run executes the text-generation stage exactly
  three times, the router answers \<open>retry\<close>, \<open>retry\<close>, \<open>continue\<close>, the run goes on
  with the image stage, and the best text is the text of the first attempt.
\<close>

theorem text_loop_exhaustion:
  assumes mx: "MAX_TEXT_ATTEMPTS (conf ev) = 3"
    and start: "text_attempt_count st = Some 0" "best_text st = None"
    and gens: "llm ev (calls w) = Inr t1" "llm ev (calls w + 2) = Inr t2"
      "llm ev (calls w + 4) = Inr t3"
    and vals: "llm ev (calls w + 1) = Inr r1" "llm ev (calls w + 3) = Inr r2"
      "llm ev (calls w + 5) = Inr r3"
    and fails: "\<not> contains ''VALIDATION: PASS'' (upper r1)"
      "\<not> contains ''VALIDATION: PASS'' (upper r2)"
      "\<not> contains ''VALIDATION: PASS'' (upper r3)"
  shows "\<exists>s1 s2 s3 s4 s5 s6 w'.
     invoke ev (6 + n) Text_generation w st =
       after [Executed Text_generation s1, Executed Text_validation s2,
              Routed Text_validation ''retry'' s2,
              Executed Text_generation s3, Executed Text_validation s4,
              Routed Text_validation ''retry'' s4,
              Executed Text_generation s5, Executed Text_validation s6,
              Routed Text_validation ''continue'' s6]
         (invoke ev n Image_generation w' s6)
     \<and> generated_text s1 = Some t1 \<and> generated_text s3 = Some t2
     \<and> generated_text s5 = Some t3
     \<and> best_text s6 = Some t1 \<and> text_attempt_count s6 = Some 3"
proof -
  have v1: "llm ev (Suc (calls w)) = Inr r1"
    using vals(1) by simp
  from text_iteration_ex [OF gens(1) v1 start(1), of "Suc (Suc (Suc (Suc n)))"] fails(1) mx
  obtain s1 s2 w2 where
    run1: "invoke ev (Suc (Suc (Suc (Suc (Suc (Suc n)))))) Text_generation w st =
       after [Executed Text_generation s1, Executed Text_validation s2,
              Routed Text_validation ''retry'' s2]
         (invoke ev (Suc (Suc (Suc (Suc n)))) Text_generation w2 s2)" and
    p1: "generated_text s1 = Some t1" "text_attempt_count s2 = Some 1"
      "best_text s2 = Some t1" "calls w2 = Suc (Suc (calls w))"
    using start(2) by auto
  have g2: "llm ev (calls w2) = Inr t2" and v2: "llm ev (Suc (calls w2)) = Inr r2"
    using gens(2) vals(2) p1(4) by (simp_all add: eval_nat_numeral)
  from text_iteration_ex [OF g2 v2 p1(2), of "Suc (Suc n)"] fails(2) mx
  obtain s3 s4 w4 where
    run2: "invoke ev (Suc (Suc (Suc (Suc n)))) Text_generation w2 s2 =
       after [Executed Text_generation s3, Executed Text_validation s4,
              Routed Text_validation ''retry'' s4]
         (invoke ev (Suc (Suc n)) Text_generation w4 s4)" and
    p2: "generated_text s3 = Some t2" "text_attempt_count s4 = Some 2"
      "best_text s4 = Some t1" "calls w4 = Suc (Suc (calls w2))"
    using p1(3) by auto
  have g3: "llm ev (calls w4) = Inr t3" and v3: "llm ev (Suc (calls w4)) = Inr r3"
    using gens(3) vals(3) p1(4) p2(4) by (simp_all add: eval_nat_numeral)
  from text_iteration_ex [OF g3 v3 p2(2), of n] fails(3) mx
  obtain s5 s6 w6 where
    run3: "invoke ev (Suc (Suc n)) Text_generation w4 s4 =
       after [Executed Text_generation s5, Executed Text_validation s6,
              Routed Text_validation ''continue'' s6]
         (invoke ev n Image_generation w6 s6)" and
    p3: "generated_text s5 = Some t3" "text_attempt_count s6 = Some 3"
      "best_text s6 = Some t1"
    using p2(3) by auto
  have six: "6 + n = Suc (Suc (Suc (Suc (Suc (Suc n)))))" by simp
  have run: "invoke ev (6 + n) Text_generation w st =
       after [Executed Text_generation s1, Executed Text_validation s2,
              Routed Text_validation ''retry'' s2,
              Executed Text_generation s3, Executed Text_validation s4,
              Routed Text_validation ''retry'' s4,
              Executed Text_generation s5, Executed Text_validation s6,
              Routed Text_validation ''continue'' s6]
         (invoke ev n Image_generation w6 s6)"
    unfolding six run1 run2 run3 after_after by simp
  with p1(1) p2(1) p3 show ?thesis by blast
qed

theorem text_loop_exhaustion_witness:
  "MAX_TEXT_ATTEMPTS (conf (sample_env exhausting_answers)) = 3
   \<and> text_attempt_count initial_state = Some 0 \<and> best_text initial_state = None
   \<and> \<not> contains ''VALIDATION: PASS'' (upper ''VALIDATION: FAIL'')
   \<and> (\<exists>s1 s2 s3 s4 s5 s6 w'.
        invoke (sample_env exhausting_answers) 6 Text_generation
          \<lparr>files = sample_files, calls = 0\<rparr> initial_state =
          after [Executed Text_generation s1, Executed Text_validation s2,
                 Routed Text_validation ''retry'' s2,
                 Executed Text_generation s3, Executed Text_validation s4,
                 Routed Text_validation ''retry'' s4,
                 Executed Text_generation s5, Executed Text_validation s6,
                 Routed Text_validation ''continue'' s6]
            (invoke (sample_env exhausting_answers) 0 Image_generation w' s6)
        \<and> generated_text s1 = Some ''first''
        \<and> best_text s6 = Some ''first'' \<and> text_attempt_count s6 = Some 3)"
proof -
  let ?ev = "sample_env exhausting_answers"
  let ?w = "\<lparr>files = sample_files, calls = 0\<rparr>"
  have mx: "MAX_TEXT_ATTEMPTS (conf ?ev) = 3"
    by (simp add: sample_env_def sample_config_def)
  have st: "text_attempt_count initial_state = Some 0" "best_text initial_state = None"
    by (simp_all add: initial_state_def)
  have f: "\<not> contains ''VALIDATION: PASS'' (upper ''VALIDATION: FAIL'')"
    by (simp add: upper.simps upper_char_def)
  have a: "llm ?ev (calls ?w) = Inr ''first''" "llm ?ev (calls ?w + 2) = Inr ''second''"
    "llm ?ev (calls ?w + 4) = Inr ''third''"
    "llm ?ev (calls ?w + 1) = Inr ''VALIDATION: FAIL''"
    "llm ?ev (calls ?w + 3) = Inr ''VALIDATION: FAIL''"
    "llm ?ev (calls ?w + 5) = Inr ''VALIDATION: FAIL''"
    by (simp_all add: sample_env_def exhausting_answers_def)
  from text_loop_exhaustion [OF mx st a f f f, of 0] mx st f
  show ?thesis by (simp del: invoke.simps) blast
qed

section \<open>Missing inputs\<close>

text \<open>
  Claim C9 says that a missing input ends the run before any stage of the graph has
  run. The check is made by \<open>load_input\<close>, the second node of the graph: below,
  \<open>load_pipeline\<close> has executed before the run fails.
\<close>

theorem precondition_inside_graph_counterexample:
  "main (sample_env (\<lambda>k. Inr ''ok'')) 25 \<lparr>files = Map.empty, calls = 0\<rparr> =
     ([Executed Load_pipeline (initial_state\<lparr>image_pipeline := None\<rparr>),
       Raised Load_input (FileNotFoundError ''Input text file not found: input.txt'')],
      Failed (FileNotFoundError ''Input text file not found: input.txt''))"
  by (simp add: main_def eval_nat_numeral sample_env_def sample_config_def load_pipeline_def
        load_input_def after_def)

text \<open>
  Claim C9, amended. When the input text or the input image is missing, every run
  that is allowed at least two stages executes \<open>load_pipeline\<close>, then fails in
  \<open>load_input\<close> with \<open>FileNotFoundError\<close>: nothing is retried and no later stage
  runs.
\<close>

theorem missing_input_aborts_at_load_input:
  "files w (INPUT_TEXT_PATH (conf ev)) = None \<or> files w (INPUT_IMAGE_PATH (conf ev)) = None
   \<longrightarrow> (\<exists>msg. main ev (Suc (Suc n)) w =
          ([Executed Load_pipeline (load_pipeline (pipeline_loads ev) initial_state),
            Raised Load_input (FileNotFoundError msg)],
           Failed (FileNotFoundError msg)))"
  by (auto simp: main_def load_input_def after_def split: option.splits)

theorem missing_input_aborts_at_load_input_witness:
  "files \<lparr>files = [''input.txt'' \<mapsto> ''AI Summit''], calls = 0\<rparr>
      (INPUT_IMAGE_PATH (conf (sample_env (\<lambda>k. Inr ''ok'')))) = None
   \<and> (\<exists>msg. main (sample_env (\<lambda>k. Inr ''ok'')) (Suc (Suc 23))
               \<lparr>files = [''input.txt'' \<mapsto> ''AI Summit''], calls = 0\<rparr> =
          ([Executed Load_pipeline
              (load_pipeline (pipeline_loads (sample_env (\<lambda>k. Inr ''ok''))) initial_state),
            Raised Load_input (FileNotFoundError msg)],
           Failed (FileNotFoundError msg)))"
proof -
  let ?ev = "sample_env (\<lambda>k. Inr ''ok'')"
  let ?w = "\<lparr>files = [''input.txt'' \<mapsto> ''AI Summit''], calls = 0\<rparr>"
  have a: "files ?w (INPUT_IMAGE_PATH (conf ?ev)) = None"
    by (simp add: sample_env_def sample_config_def)
  with missing_input_aborts_at_load_input [of ?w ?ev 23] show ?thesis by blast
qed

section \<open>Saving without the overlay\<close>

text \<open>
  Claim C10. When \<open>poster_with_text\<close> is \<open>None\<close>, empty, or the path of a file that
  does not exist, \<open>save_output\<close> copies the poster from \<open>best_image\<close>, or from
  \<open>current_image\<close> when \<open>best_image\<close> is \<open>None\<close> or empty, and writes \<open>best_text\<close>,
  or \<open>generated_text\<close> when \<open>best_text\<close> is \<open>None\<close> or empty. Given that this image
  exists (and is not the output file itself) and that there is a text, the stage
  returns: the missing overlay does not make it fail.
\<close>

theorem save_output_fallback:
  "(poster_with_text st = None \<or> poster_with_text st = Some []
      \<or> (\<exists>p. poster_with_text st = Some p \<and> fs p = None))
   \<and> (if truthy (best_image st) then best_image st else current_image st) = Some src
   \<and> fs src = Some content
   \<and> src \<noteq> path_join (OUTPUT_DIR c) ''poster.png''
   \<and> (if truthy (best_text st) then best_text st else generated_text st) = Some t
   \<longrightarrow>
   save_output c fs st =
     Inr (fs(path_join (OUTPUT_DIR c) ''poster.png'' \<mapsto> content,
             path_join (OUTPUT_DIR c) ''text.txt'' \<mapsto> t),
          st\<lparr>final_poster_path := Some (path_join (OUTPUT_DIR c) ''poster.png''),
             final_text_path := Some (path_join (OUTPUT_DIR c) ''text.txt'')\<rparr>)"
proof
  assume h: "(poster_with_text st = None \<or> poster_with_text st = Some []
      \<or> (\<exists>p. poster_with_text st = Some p \<and> fs p = None))
   \<and> (if truthy (best_image st) then best_image st else current_image st) = Some src
   \<and> fs src = Some content
   \<and> src \<noteq> path_join (OUTPUT_DIR c) ''poster.png''
   \<and> (if truthy (best_text st) then best_text st else generated_text st) = Some t"
  then have "poster_source_of fs st = Some src"
    by (auto simp: poster_source_of_def py_or_def truthy_def Let_def)
  moreover from h have "py_or (best_text st) (generated_text st) = Some t"
    by (simp add: py_or_def)
  ultimately show "save_output c fs st =
     Inr (fs(path_join (OUTPUT_DIR c) ''poster.png'' \<mapsto> content,
             path_join (OUTPUT_DIR c) ''text.txt'' \<mapsto> t),
          st\<lparr>final_poster_path := Some (path_join (OUTPUT_DIR c) ''poster.png''),
             final_text_path := Some (path_join (OUTPUT_DIR c) ''text.txt'')\<rparr>)"
    using h by (simp add: save_output_def shutil_copy_def Let_def)
qed

theorem save_output_fallback_witness:
  "poster_with_text (initial_state\<lparr>current_image := Some ''input.png'',
       generated_text := Some ''AI Summit''\<rparr>) = None
   \<and> save_output sample_config sample_files
        (initial_state\<lparr>current_image := Some ''input.png'', generated_text := Some ''AI Summit''\<rparr>)
      = Inr (sample_files(''outputs/poster.png'' \<mapsto> ''logo'', ''outputs/text.txt'' \<mapsto> ''AI Summit''),
             initial_state\<lparr>current_image := Some ''input.png'',
               generated_text := Some ''AI Summit'',
               final_poster_path := Some ''outputs/poster.png'',
               final_text_path := Some ''outputs/text.txt''\<rparr>)
   \<and> save_output sample_config sample_files
        (initial_state\<lparr>poster_with_text := Some ''poster_with_text.png'',
           best_image := Some ''input.png'', current_image := Some ''attempt3.png'',
           best_text := Some ''AI'', generated_text := Some ''AI Summit''\<rparr>)
      = Inr (sample_files(''outputs/poster.png'' \<mapsto> ''logo'', ''outputs/text.txt'' \<mapsto> ''AI''),
             initial_state\<lparr>poster_with_text := Some ''poster_with_text.png'',
               best_image := Some ''input.png'', current_image := Some ''attempt3.png'',
               best_text := Some ''AI'', generated_text := Some ''AI Summit'',
               final_poster_path := Some ''outputs/poster.png'',
               final_text_path := Some ''outputs/text.txt''\<rparr>)"
proof -
  let ?a = "initial_state\<lparr>current_image := Some ''input.png'', generated_text := Some ''AI Summit''\<rparr>"
  let ?b = "initial_state\<lparr>poster_with_text := Some ''poster_with_text.png'',
           best_image := Some ''input.png'', current_image := Some ''attempt3.png'',
           best_text := Some ''AI'', generated_text := Some ''AI Summit''\<rparr>"
  have p: "path_join (OUTPUT_DIR sample_config) ''poster.png'' = ''outputs/poster.png''"
    "path_join (OUTPUT_DIR sample_config) ''text.txt'' = ''outputs/text.txt''"
    by (simp_all add: path_join_def sample_config_def)
  have a: "poster_with_text ?a = None"
    by (simp add: initial_state_def)
  have "save_output sample_config sample_files ?a
      = Inr (sample_files(''outputs/poster.png'' \<mapsto> ''logo'', ''outputs/text.txt'' \<mapsto> ''AI Summit''),
             ?a\<lparr>final_poster_path := Some ''outputs/poster.png'',
               final_text_path := Some ''outputs/text.txt''\<rparr>)"
    using save_output_fallback [of ?a sample_files "''input.png''" "''logo''" sample_config "''AI Summit''"]
    by (simp add: p truthy_def initial_state_def sample_files_def)
  moreover have "save_output sample_config sample_files ?b
      = Inr (sample_files(''outputs/poster.png'' \<mapsto> ''logo'', ''outputs/text.txt'' \<mapsto> ''AI''),
             ?b\<lparr>final_poster_path := Some ''outputs/poster.png'',
               final_text_path := Some ''outputs/text.txt''\<rparr>)"
    using save_output_fallback [of ?b sample_files "''input.png''" "''logo''" sample_config "''AI''"]
    by (simp add: p truthy_def initial_state_def sample_files_def)
  ultimately show ?thesis using a by simp
qed

end
